theory Spec2Isabelle
  imports Complex_Main
begin

section \<open>Arrays\<close>

text \<open>
  The estimator of \<^verbatim>\<open>src/emkf.py\<close> computes on numpy arrays of floats. A vector is
  a list of reals, a matrix a list of rows, a trajectory a list indexed by time. The
  arithmetic is the exact arithmetic of the reals: rounding is outside this model.
  Shapes are taken to conform, as the constructor's dimension resolver establishes;
  numpy's shape errors are not modelled, and an elementwise operation on operands of
  different lengths stops at the shorter one.
\<close>

type_synonym vec = "real list"
type_synonym mat = "real list list"

definition dot :: "vec \<Rightarrow> vec \<Rightarrow> real" where
  "dot u v = sum_list (map2 (*) u v)"

text \<open>\<^verbatim>\<open>A.T\<close>\<close>

definition mT :: "mat \<Rightarrow> mat" where
  "mT A = (if A = [] then [] else map (\<lambda>j. map (\<lambda>r. r ! j) A) [0..<length (hd A)])"

text \<open>\<^verbatim>\<open>A @ x\<close> and \<^verbatim>\<open>A @ B\<close>\<close>

definition mv :: "mat \<Rightarrow> vec \<Rightarrow> vec" where
  "mv A x = map (\<lambda>r. dot r x) A"

definition mm :: "mat \<Rightarrow> mat \<Rightarrow> mat" where
  "mm A B = map (\<lambda>r. map (\<lambda>c. dot r c) (mT B)) A"

definition vadd :: "vec \<Rightarrow> vec \<Rightarrow> vec" where
  "vadd u v = map2 (+) u v"

definition vsub :: "vec \<Rightarrow> vec \<Rightarrow> vec" where
  "vsub u v = map2 (-) u v"

definition madd :: "mat \<Rightarrow> mat \<Rightarrow> mat" where
  "madd A B = map2 vadd A B"

definition msub :: "mat \<Rightarrow> mat \<Rightarrow> mat" where
  "msub A B = map2 vsub A B"

definition vscale :: "real \<Rightarrow> vec \<Rightarrow> vec" where
  "vscale c v = map ((*) c) v"

definition mscale :: "real \<Rightarrow> mat \<Rightarrow> mat" where
  "mscale c A = map (vscale c) A"

text \<open>\<^verbatim>\<open>xp.outer(u, v)\<close>\<close>

definition outer :: "vec \<Rightarrow> vec \<Rightarrow> mat" where
  "outer u v = map (\<lambda>a. map (\<lambda>b. a * b) v) u"

text \<open>\<^verbatim>\<open>xp.zeros(n)\<close> and \<^verbatim>\<open>xp.zeros((n, m))\<close>\<close>

definition vzeros :: "nat \<Rightarrow> vec" where
  "vzeros n = replicate n 0"

definition mzeros :: "nat \<Rightarrow> nat \<Rightarrow> mat" where
  "mzeros n m = replicate n (vzeros m)"

text \<open>\<^verbatim>\<open>xp.maximum(c, X)\<close> and \<^verbatim>\<open>xp.minimum(X, c)\<close> with a scalar \<open>c\<close>, elementwise.\<close>

definition vmaximum :: "real \<Rightarrow> vec \<Rightarrow> vec" where
  "vmaximum c v = map (max c) v"

definition vminimum :: "vec \<Rightarrow> real \<Rightarrow> vec" where
  "vminimum v c = map (\<lambda>x. min x c) v"

definition mmaximum :: "real \<Rightarrow> mat \<Rightarrow> mat" where
  "mmaximum c A = map (vmaximum c) A"

definition mminimum :: "mat \<Rightarrow> real \<Rightarrow> mat" where
  "mminimum A c = map (\<lambda>r. vminimum r c) A"

text \<open>
  \<^verbatim>\<open>xp.linalg.pinv\<close> is numpy's, not this repository's: every operation below takes
  it as the parameter \<open>pinv\<close>. For evaluating scalar models, \<open>pinv_scalar\<close> is the
  Moore-Penrose inverse of a 1 x 1 matrix (in HOL \<open>inverse 0 = 0\<close>).
\<close>

definition pinv_scalar :: "mat \<Rightarrow> mat" where
  "pinv_scalar A = map (map inverse) A"

section \<open>The estimator object\<close>

datatype error = ValueError | IndexError | TypeError | AttributeError
  | UnboundLocalError | ZeroDivisionError

text \<open>
  The attributes of \<^verbatim>\<open>ExpectationMaximizationKalmanFilter\<close>. \<open>F\<close> is one matrix (the
  history buffer is shaped from \<^verbatim>\<open>F.shape[0]\<close> and \<^verbatim>\<open>F.shape[1]\<close>). \<open>Q\<close>, \<open>H\<close>,
  \<open>R\<close>, \<open>b\<close> and \<open>d\<close> are read only through \<^verbatim>\<open>_last_dims(X, t, k)\<close> of the absent
  module \<^verbatim>\<open>util_functions\<close>; each field gives that reading as a function of \<open>t\<close>, constant
  for a time-invariant parameter. The trajectory attributes exist only once \<^verbatim>\<open>forward\<close>
  has allocated them, which \<open>allocated\<close> records.
\<close>

record emkf =
  y :: "vec list"
  initial_mean :: vec
  initial_covariance :: mat
  F :: mat
  Q :: "nat \<Rightarrow> mat"
  H :: "nat \<Rightarrow> mat"
  R :: "nat \<Rightarrow> mat"
  b :: "nat \<Rightarrow> vec"
  d :: "nat \<Rightarrow> vec"
  mode :: string
  tau :: nat
  store_transition_matrices_on :: bool
  Fs :: "mat list"
  em_vars :: "string list"
  iteration :: nat
  eta :: real
  cutoff :: real
  etab :: real
  cutoffb :: real
  n_dim_sys :: nat
  allocated :: bool
  x_pred :: "vec list"
  V_pred :: "mat list"
  x_filt :: "vec list"
  V_filt :: "mat list"
  x_smooth :: "vec list"
  V_smooth :: "mat list"
  V_pair :: "mat list"

text \<open>
  \<^verbatim>\<open>__init__\<close>, from the mode check on. The argument record carries the constructor's
  arguments in the fields of the same name (\<open>tau\<close> is \<^verbatim>\<open>update_interval\<close>, \<open>F\<close> is
  \<^verbatim>\<open>transition_matrices\<close>, and so on), after the defaults have been filled in.
  \<^verbatim>\<open>(len(y) - 1) // tau\<close> is Python's floor division on integers.
\<close>

definition init :: "emkf \<Rightarrow> error + emkf" where
  "init a =
    (if mode a \<noteq> ''filter'' \<and> mode a \<noteq> ''smooth'' then Inl ValueError
     else if store_transition_matrices_on a \<and> tau a = 0 then Inl ZeroDivisionError
     else Inr (a\<lparr>
       Fs := (if store_transition_matrices_on a
              then (replicate (nat ((int (length (y a)) - 1) div int (tau a) + 1 + 1))
                      (mzeros (length (F a)) (length (hd (F a)))))[0 := F a]
              else []),
       em_vars := (if ''F'' \<in> set (em_vars a) \<or> ''transition_matrices'' \<in> set (em_vars a)
                   then [''F''] else [])
                @ (if ''b'' \<in> set (em_vars a) \<or> ''transition_offsets'' \<in> set (em_vars a)
                   then [''b''] else []),
       allocated := False,
       x_pred := [], V_pred := [], x_filt := [], V_filt := [],
       x_smooth := [], V_smooth := [], V_pair := []\<rparr>))"

section \<open>Forward recursion\<close>

text \<open>\<^verbatim>\<open>_predict_update(t, F)\<close>; \<open>None\<close> is the default \<^verbatim>\<open>F=None\<close>.\<close>

definition predict_update :: "emkf \<Rightarrow> nat \<Rightarrow> mat option \<Rightarrow> emkf" where
  "predict_update st t Fo =
    (let F' = (case Fo of None \<Rightarrow> F st | Some G \<Rightarrow> G);
         Q' = Q st (t - 1);
         b' = b st (t - 1);
         st1 = st\<lparr>x_pred := (x_pred st)[t := vadd (mv F' (x_filt st ! (t - 1))) b']\<rparr>
     in st1\<lparr>V_pred := (V_pred st1)[t := madd (mm (mm F' (V_filt st1 ! (t - 1))) (mT F')) Q']\<rparr>)"

text \<open>\<^verbatim>\<open>_predict_update_pair(t, F)\<close>, which also records the cross term.\<close>

definition predict_update_pair :: "emkf \<Rightarrow> nat \<Rightarrow> mat option \<Rightarrow> emkf" where
  "predict_update_pair st t Fo =
    (let F' = (case Fo of None \<Rightarrow> F st | Some G \<Rightarrow> G);
         Q' = Q st (t - 1);
         b' = b st (t - 1);
         st1 = st\<lparr>x_pred := (x_pred st)[t := vadd (mv F' (x_filt st ! (t - 1))) b']\<rparr>;
         st2 = st1\<lparr>V_pred := (V_pred st1)[t := madd (mm (mm F' (V_filt st1 ! (t - 1))) (mT F')) Q']\<rparr>
     in st2\<lparr>V_pair := (V_pair st2)[t := mm (V_filt st2 ! (t - 1)) (mT F')]\<rparr>)"

text \<open>The Kalman gain of \<^verbatim>\<open>_filter_update\<close>, as the source brackets it.\<close>

definition kalman_gain :: "(mat \<Rightarrow> mat) \<Rightarrow> emkf \<Rightarrow> nat \<Rightarrow> mat" where
  "kalman_gain pinv st t =
     mm (V_pred st ! t) (mm (mT (H st t)) (pinv (madd (mm (H st t) (mm (V_pred st ! t) (mT (H st t)))) (R st t))))"

text \<open>\<^verbatim>\<open>_filter_update(t)\<close>\<close>

definition filter_update :: "(mat \<Rightarrow> mat) \<Rightarrow> emkf \<Rightarrow> nat \<Rightarrow> emkf" where
  "filter_update pinv st t =
    (let H' = H st t;
         d' = d st t;
         K = kalman_gain pinv st t;
         st1 = st\<lparr>x_filt := (x_filt st)[t :=
                  vadd (x_pred st ! t) (mv K (vsub (y st ! t) (vadd (mv H' (x_pred st ! t)) d')))]\<rparr>
     in st1\<lparr>V_filt := (V_filt st1)[t := msub (V_pred st1 ! t) (mm K (mm H' (V_pred st1 ! t)))]\<rparr>)"

text \<open>\<^verbatim>\<open>_filter_update_pair(t)\<close>\<close>

definition filter_update_pair :: "(mat \<Rightarrow> mat) \<Rightarrow> emkf \<Rightarrow> nat \<Rightarrow> emkf" where
  "filter_update_pair pinv st t =
    (let H' = H st t;
         K = kalman_gain pinv st t;
         st2 = filter_update pinv st t
     in st2\<lparr>V_pair := (V_pair st2)[t := msub (V_pair st2 ! t) (mm (mm K H') (V_pair st2 ! t))]\<rparr>)"

section \<open>Backward recursion\<close>

text \<open>One pass of the loop of \<^verbatim>\<open>_backward\<close>, at time \<open>t\<close>.\<close>

definition smoother_gain :: "(mat \<Rightarrow> mat) \<Rightarrow> mat \<Rightarrow> emkf \<Rightarrow> nat \<Rightarrow> mat" where
  "smoother_gain pinv F' st t = mm (mm (V_filt st ! t) F') (pinv (V_pred st ! (t + 1)))"

definition backward_step :: "(mat \<Rightarrow> mat) \<Rightarrow> mat \<Rightarrow> nat \<Rightarrow> emkf \<Rightarrow> emkf" where
  "backward_step pinv F' t st =
    (let A = smoother_gain pinv F' st t;
         st1 = st\<lparr>x_smooth := (x_smooth st)[t :=
                  vadd (x_filt st ! t) (mv A (vsub (x_smooth st ! (t + 1)) (x_pred st ! (t + 1))))]\<rparr>;
         st2 = st1\<lparr>V_smooth := (V_smooth st1)[t :=
                  madd (V_filt st1 ! t)
                       (mm (mm A (msub (V_smooth st1 ! (t + 1)) (V_pred st1 ! (t + 1)))) (mT A))]\<rparr>
     in st2\<lparr>V_pair := (V_pair st2)[t + 1 := mm (V_smooth st2 ! (t + 1)) (mT A)]\<rparr>)"

text \<open>Python's \<^verbatim>\<open>reversed\<close>.\<close>

definition reversed :: "'a list \<Rightarrow> 'a list" where
  "reversed xs = rev xs"

text \<open>
  \<^verbatim>\<open>_backward(s, tau, F)\<close>. With \<^verbatim>\<open>F=None\<close> the source reads the loop variable \<open>t\<close>
  before the loop has bound it. The callers in \<^verbatim>\<open>forward\<close> pass \<open>tau \<le> s\<close>, so that
  \<^verbatim>\<open>range(s - tau, s)\<close> has no negative index.
\<close>

definition backward :: "(mat \<Rightarrow> mat) \<Rightarrow> emkf \<Rightarrow> nat \<Rightarrow> nat \<Rightarrow> mat option \<Rightarrow> error + emkf" where
  "backward pinv st s tau' Fo =
    (case Fo of
       None \<Rightarrow> Inl UnboundLocalError
     | Some F' \<Rightarrow>
        Inr (fold (backward_step pinv F') (reversed [s - tau'..<s])
               (let st1 = st\<lparr>x_smooth := (x_smooth st)[s := x_filt st ! s]\<rparr>
                in st1\<lparr>V_smooth := (V_smooth st1)[s := V_filt st1 ! s]\<rparr>)))"

section \<open>Transition estimator\<close>

text \<open>
  The update rule, written out in the source at each of its three places as
  \<^verbatim>\<open>old - rate * xp.minimum(xp.maximum(-threshold, old - candidate), threshold)\<close>.
\<close>

definition damped_clip_v :: "real \<Rightarrow> real \<Rightarrow> vec \<Rightarrow> vec \<Rightarrow> vec" where
  "damped_clip_v rate threshold old candidate =
     vsub old (vscale rate (vminimum (vmaximum (- threshold) (vsub old candidate)) threshold))"

definition damped_clip_m :: "real \<Rightarrow> real \<Rightarrow> mat \<Rightarrow> mat \<Rightarrow> mat" where
  "damped_clip_m rate threshold old candidate =
     msub old (mscale rate (mminimum (mmaximum (- threshold) (msub old candidate)) threshold))"

text \<open>The sums \<open>res1\<close> and \<open>res2\<close> of \<^verbatim>\<open>_update_transition_matrix\<close>, over the times \<open>ts\<close>.\<close>

definition smoothed_sums :: "emkf \<Rightarrow> nat list \<Rightarrow> mat \<times> mat" where
  "smoothed_sums st ts =
     fold (\<lambda>t (res1, res2).
            (msub (madd res1 (madd (V_pair st ! t) (outer (x_smooth st ! t) (x_smooth st ! (t - 1)))))
                  (outer (b st (t - 1)) (x_smooth st ! (t - 1))),
             madd res2 (madd (V_smooth st ! (t - 1))
                             (outer (x_smooth st ! (t - 1)) (x_smooth st ! (t - 1))))))
          ts (mzeros (n_dim_sys st) (n_dim_sys st), mzeros (n_dim_sys st) (n_dim_sys st))"

text \<open>The offset candidate \<open>b_est\<close> of \<^verbatim>\<open>_update_transition_matrix\<close>.\<close>

definition offset_estimate :: "emkf \<Rightarrow> nat \<Rightarrow> nat \<Rightarrow> vec" where
  "offset_estimate st s tau' =
     vscale (1 / real (tau' - 1))
       (fold (\<lambda>t b_est. vadd b_est (vsub (x_smooth st ! t) (mv (F st) (x_smooth st ! (t - 1)))))
             [s - tau' + 1..<s] (vzeros (n_dim_sys st)))"

text \<open>
  \<^verbatim>\<open>_update_transition_matrix(s, tau, F)\<close>. The local \<open>F_est\<close> is bound only under
  \<^verbatim>\<open>"F" in self.em_vars\<close>; \<^verbatim>\<open>return F_est\<close> raises when it is not.
\<close>

definition update_transition_matrix ::
    "(mat \<Rightarrow> mat) \<Rightarrow> emkf \<Rightarrow> nat \<Rightarrow> nat \<Rightarrow> mat option \<Rightarrow> error + (emkf \<times> mat)" where
  "update_transition_matrix pinv st s tau' Fo =
    (case backward pinv st s tau' Fo of
       Inl e \<Rightarrow> Inl e
     | Inr st1 \<Rightarrow>
        (let F_est = (if ''F'' \<in> set (em_vars st1)
                      then (case smoothed_sums st1 [s - tau' + 1..<s + 1] of
                              (res1, res2) \<Rightarrow> Some (mm res1 (pinv res2)))
                      else None);
             st2 = (if ''b'' \<in> set (em_vars st1) \<and> tau' > 1
                    then st1\<lparr>b := (\<lambda>t. damped_clip_v (etab st1) (cutoffb st1) (b st1 t)
                                         (offset_estimate st1 s tau'))\<rparr>
                    else st1)
         in case F_est of
              None \<Rightarrow> Inl UnboundLocalError
            | Some Fe \<Rightarrow> Inr (st2, Fe)))"

text \<open>The sums of \<^verbatim>\<open>_update_transition_matrix_approximately\<close>, from the filtered values.\<close>

definition filtered_sums :: "emkf \<Rightarrow> nat list \<Rightarrow> mat \<times> mat" where
  "filtered_sums st ts =
     fold (\<lambda>s (res1, res2).
            (msub (madd res1 (madd (V_pair st ! s) (outer (x_filt st ! s) (x_filt st ! (s - 1)))))
                  (outer (b st (s - 1)) (x_filt st ! (s - 1))),
             madd res2 (madd (V_filt st ! (s - 1))
                             (outer (x_filt st ! (s - 1)) (x_filt st ! (s - 1))))))
          ts (mzeros (n_dim_sys st) (n_dim_sys st), mzeros (n_dim_sys st) (n_dim_sys st))"

text \<open>\<^verbatim>\<open>_update_transition_matrix_approximately(t)\<close>\<close>

definition update_transition_matrix_approximately :: "(mat \<Rightarrow> mat) \<Rightarrow> emkf \<Rightarrow> nat \<Rightarrow> emkf" where
  "update_transition_matrix_approximately pinv st t =
    (case filtered_sums st [t + 1..<t + tau st + 1] of
       (res1, res2) \<Rightarrow>
        (let F_est = mm res1 (pinv res2);
             st1 = st\<lparr>F := damped_clip_m (eta st) (cutoff st) (F st) F_est\<rparr>
         in if store_transition_matrices_on st1
            then st1\<lparr>Fs := (Fs st1)[t div tau st1 + 1 := F st1]\<rparr>
            else st1))"

section \<open>Block scheduler\<close>

text \<open>A loop whose body may raise stops at the first error.\<close>

fun foldE :: "('a \<Rightarrow> 's \<Rightarrow> error + 's) \<Rightarrow> 'a list \<Rightarrow> 's \<Rightarrow> error + 's" where
  "foldE f [] s = Inr s"
| "foldE f (x # xs) s = (case f x s of Inl e \<Rightarrow> Inl e | Inr s' \<Rightarrow> foldE f xs s')"

text \<open>Predict and update at \<open>t\<close>, the body of the inner loops of \<^verbatim>\<open>forward\<close>.\<close>

definition predict_filter :: "(mat \<Rightarrow> mat) \<Rightarrow> mat option \<Rightarrow> nat \<Rightarrow> emkf \<Rightarrow> emkf" where
  "predict_filter pinv Fo t st = filter_update pinv (predict_update st t Fo) t"

text \<open>
  The body of \<^verbatim>\<open>for n in range(self.iteration)\<close> in the block starting at \<open>s\<close>. The
  state of the loop is the object, the local \<open>t\<close> of \<^verbatim>\<open>forward\<close> (\<open>None\<close> while no
  loop has bound it; it keeps its value from one block to the next) and \<open>F_est\<close>.
\<close>

fun em_iteration ::
    "(mat \<Rightarrow> mat) \<Rightarrow> nat \<Rightarrow> nat \<Rightarrow> emkf \<times> nat option \<times> mat \<Rightarrow> error + (emkf \<times> nat option \<times> mat)" where
  "em_iteration pinv s n (st, tv, F_est) =
    (let T = length (y st);
         st1 = (if n \<noteq> 0
                then (let sa = st\<lparr>x_pred := (x_pred st)[s := x_smooth st ! s]\<rparr>
                      in sa\<lparr>V_pred := (V_pred sa)[s :=
                            msub (V_smooth sa ! s) (outer (x_smooth sa ! s) (x_smooth sa ! s))]\<rparr>)
                else st);
         ts = [s + 1..<min (s + tau st + 1) T];
         st2 = fold (predict_filter pinv (Some F_est)) ts st1;
         tv' = (if ts = [] then tv else Some (last ts))
     in case tv' of
          None \<Rightarrow> Inl UnboundLocalError
        | Some t \<Rightarrow>
           (case update_transition_matrix pinv st2 t
                   (length [s..<min (s + tau st + 1) T] - 1) (Some F_est) of
              Inl e \<Rightarrow> Inl e
            | Inr (st3, F_est') \<Rightarrow> Inr (st3, tv', F_est')))"

text \<open>The body of \<^verbatim>\<open>for s in range(0, T, self.tau)\<close>.\<close>

fun smooth_block :: "(mat \<Rightarrow> mat) \<Rightarrow> nat \<Rightarrow> emkf \<times> nat option \<Rightarrow> error + (emkf \<times> nat option)" where
  "smooth_block pinv s (st, tv) =
    (let F_est = F st;
         st1 = (if s \<noteq> 0 then predict_update st s (Some F_est) else st);
         st2 = filter_update pinv st1 s
     in case foldE (em_iteration pinv s) [0..<iteration st2] (st2, tv, F_est) of
          Inl e \<Rightarrow> Inl e
        | Inr (st3, tv', F_est') \<Rightarrow>
           (let st4 = st3\<lparr>F := damped_clip_m (eta st3) (cutoff st3) (F st3) F_est'\<rparr>
            in Inr (if store_transition_matrices_on st4
                    then st4\<lparr>Fs := (Fs st4)[s div tau st4 + 1 := F st4]\<rparr>
                    else st4, tv')))"

text \<open>The body of \<^verbatim>\<open>for t in range(1, T)\<close> in "filter" mode.\<close>

definition filter_step :: "(mat \<Rightarrow> mat) \<Rightarrow> nat \<Rightarrow> emkf \<Rightarrow> error + emkf" where
  "filter_step pinv t st =
    (if tau st = 0 then Inl ZeroDivisionError
     else
      (let T = length (y st);
           st1 = (if (t - 1) mod tau st = 0 \<and> int t < int T - int (tau st)
                  then update_transition_matrix_approximately pinv
                         (fold (predict_filter pinv None) [t..<t + tau st + 1] st) t
                  else st)
       in Inr (predict_filter pinv None t st1)))"

text \<open>The allocation at the head of \<^verbatim>\<open>forward\<close>, before the initial setting.\<close>

definition allocate :: "emkf \<Rightarrow> emkf" where
  "allocate st =
    (let T = length (y st); n = n_dim_sys st
     in st\<lparr>allocated := True,
           x_pred := replicate T (vzeros n), V_pred := replicate T (mzeros n n),
           x_filt := replicate T (vzeros n), V_filt := replicate T (mzeros n n),
           x_smooth := replicate T (vzeros n), V_smooth := replicate T (mzeros n n),
           V_pair := replicate T (mzeros n n)\<rparr>)"

text \<open>The initial setting of \<^verbatim>\<open>forward\<close>, on the allocated arrays.\<close>

definition initial_setting :: "emkf \<Rightarrow> emkf" where
  "initial_setting st0 =
    (let st1 = st0\<lparr>x_pred := (x_pred st0)[0 := initial_mean st0]\<rparr>
     in st1\<lparr>V_pred := (V_pred st1)[0 := initial_covariance st1]\<rparr>)"

text \<open>
  \<^verbatim>\<open>forward()\<close>. With no observation the initial setting \<^verbatim>\<open>self.x_pred[0] = ...\<close>
  raises; \<^verbatim>\<open>range(0, T, 0)\<close> raises.
\<close>

definition forward :: "(mat \<Rightarrow> mat) \<Rightarrow> emkf \<Rightarrow> error + emkf" where
  "forward pinv st =
    (let T = length (y st);
         st0 = allocate st
     in if T = 0 then Inl IndexError
        else
         (let st2 = initial_setting st0
          in if mode st2 = ''smooth''
             then (if tau st2 = 0 then Inl ValueError
                   else (case foldE (smooth_block pinv)
                                (map (\<lambda>k. k * tau st2) [0..<(T + tau st2 - 1) div tau st2])
                                (st2, None) of
                           Inl e \<Rightarrow> Inl e
                         | Inr (st3, tv) \<Rightarrow> Inr st3))
             else if mode st2 = ''filter''
             then foldE (filter_step pinv) [1..<T] (filter_update pinv st2 0)
             else Inr st2))"

section \<open>Result accessors\<close>

text \<open>What an accessor returns: the whole trajectory, or one coordinate's time series.\<close>

datatype result = Trajectory "vec list" | Coordinate vec

text \<open>
  \<^verbatim>\<open>X[:, int(dim)]\<close> on an array with \<open>n\<close> columns: numpy counts a negative index from the
  end and raises IndexError outside \<open>[-n, n)\<close>.
\<close>

definition column :: "vec list \<Rightarrow> nat \<Rightarrow> int \<Rightarrow> error + vec" where
  "column X n dm =
    (let j = (if dm < 0 then int n + dm else dm)
     in if 0 \<le> j \<and> j < int n then Inr (map (\<lambda>r. r ! nat j) X) else Inl IndexError)"

text \<open>
  The tail shared by the three accessors. In the last branch the message is built as
  \<^verbatim>\<open>'The dim must be less than ' + X.shape[1] + '.'\<close>, a \<open>str\<close> plus an \<open>int\<close>, which
  raises TypeError before any ValueError exists.
\<close>

definition select :: "vec list \<Rightarrow> nat \<Rightarrow> int option \<Rightarrow> error + result" where
  "select X n dm =
    (case dm of
       None \<Rightarrow> Inr (Trajectory X)
     | Some k \<Rightarrow>
        (if k \<le> int n
         then (case column X n k of Inl e \<Rightarrow> Inl e | Inr c \<Rightarrow> Inr (Coordinate c))
         else Inl TypeError))"

text \<open>
  \<^verbatim>\<open>get_predicted_value(dim)\<close>: \<^verbatim>\<open>self.x_pred[0]\<close> raises when the attribute is absent or
  empty, and the bare \<^verbatim>\<open>except\<close> then runs \<^verbatim>\<open>forward\<close>.
\<close>

definition get_predicted_value :: "(mat \<Rightarrow> mat) \<Rightarrow> emkf \<Rightarrow> int option \<Rightarrow> error + (result \<times> emkf)" where
  "get_predicted_value pinv st dm =
    (case (if allocated st \<and> x_pred st \<noteq> [] then Inr st else forward pinv st) of
       Inl e \<Rightarrow> Inl e
     | Inr st' \<Rightarrow>
        (case select (x_pred st') (n_dim_sys st') dm of
           Inl e \<Rightarrow> Inl e
         | Inr r \<Rightarrow> Inr (r, st')))"

text \<open>\<^verbatim>\<open>get_filtered_value(dim)\<close>\<close>

definition get_filtered_value :: "(mat \<Rightarrow> mat) \<Rightarrow> emkf \<Rightarrow> int option \<Rightarrow> error + (result \<times> emkf)" where
  "get_filtered_value pinv st dm =
    (case (if allocated st \<and> x_filt st \<noteq> [] then Inr st else forward pinv st) of
       Inl e \<Rightarrow> Inl e
     | Inr st' \<Rightarrow>
        (case select (x_filt st') (n_dim_sys st') dm of
           Inl e \<Rightarrow> Inl e
         | Inr r \<Rightarrow> Inr (r, st')))"

text \<open>
  \<^verbatim>\<open>get_smoothed_value(dim)\<close>: the handler calls \<^verbatim>\<open>self.smooth()\<close>, and the class has no
  attribute \<open>smooth\<close>.
\<close>

definition get_smoothed_value :: "(mat \<Rightarrow> mat) \<Rightarrow> emkf \<Rightarrow> int option \<Rightarrow> error + (result \<times> emkf)" where
  "get_smoothed_value pinv st dm =
    (case (if allocated st \<and> x_smooth st \<noteq> [] then Inr st else Inl AttributeError) of
       Inl e \<Rightarrow> Inl e
     | Inr st' \<Rightarrow>
        (case select (x_smooth st') (n_dim_sys st') dm of
           Inl e \<Rightarrow> Inl e
         | Inr r \<Rightarrow> Inr (r, st')))"

text \<open>\<^verbatim>\<open>get_transition_matrices()\<close>, with \<^verbatim>\<open>ids=None\<close>.\<close>

datatype history = History "mat list" | Current mat

definition get_transition_matrices :: "emkf \<Rightarrow> history" where
  "get_transition_matrices st =
    (if store_transition_matrices_on st then History (Fs st) else Current (F st))"

section \<open>Predicates for the statements\<close>

text \<open>
  What no operation of the estimator changes: the observations, the hyperparameters and
  the sizes of the trajectory arrays and of the history buffer.
\<close>

definition frame :: "emkf \<Rightarrow> emkf \<Rightarrow> bool" where
  "frame st st' \<longleftrightarrow>
     y st' = y st \<and> mode st' = mode st \<and> tau st' = tau st \<and> iteration st' = iteration st
     \<and> store_transition_matrices_on st' = store_transition_matrices_on st
     \<and> em_vars st' = em_vars st \<and> eta st' = eta st \<and> cutoff st' = cutoff st
     \<and> etab st' = etab st \<and> cutoffb st' = cutoffb st \<and> n_dim_sys st' = n_dim_sys st
     \<and> length (Fs st') = length (Fs st)
     \<and> length (x_pred st') = length (x_pred st) \<and> length (V_pred st') = length (V_pred st)
     \<and> length (x_filt st') = length (x_filt st) \<and> length (V_filt st') = length (V_filt st)
     \<and> length (x_smooth st') = length (x_smooth st) \<and> length (V_smooth st') = length (V_smooth st)
     \<and> length (V_pair st') = length (V_pair st)"

text \<open>The smoothed mean and covariance at \<open>t\<close> are the filtered ones.\<close>

definition synced :: "emkf \<Rightarrow> nat \<Rightarrow> bool" where
  "synced st t \<longleftrightarrow> x_smooth st ! t = x_filt st ! t \<and> V_smooth st ! t = V_filt st ! t"

text \<open>The smoothed arrays have one entry for each observation.\<close>

definition full_size :: "emkf \<Rightarrow> bool" where
  "full_size st \<longleftrightarrow> length (x_smooth st) = length (y st) \<and> length (V_smooth st) = length (y st)"

text \<open>The equations of the fixed-interval smoother at \<open>t\<close>, with the gain \<open>A\<close>.\<close>

definition smoothed_at :: "(mat \<Rightarrow> mat) \<Rightarrow> mat \<Rightarrow> emkf \<Rightarrow> nat \<Rightarrow> bool" where
  "smoothed_at pinv F' st t \<longleftrightarrow>
    (let A = mm (mm (V_filt st ! t) F') (pinv (V_pred st ! (t + 1)))
     in x_smooth st ! t = vadd (x_filt st ! t) (mv A (vsub (x_smooth st ! (t + 1)) (x_pred st ! (t + 1))))
      \<and> V_smooth st ! t = madd (V_filt st ! t)
            (mm (mm A (msub (V_smooth st ! (t + 1)) (V_pred st ! (t + 1)))) (mT A))
      \<and> V_pair st ! (t + 1) = mm (V_smooth st ! (t + 1)) (mT A))"

section \<open>Scalar models for evaluation\<close>

text \<open>
  A model with one state and one observation coordinate, unit covariances, \<open>H = 1\<close>,
  no offsets, rates and thresholds \<open>1/10\<close> and one inner iteration, given as the
  constructor's arguments: the initial \<open>F\<close>, the initial mean, the observations, the
  mode, the block length and the EM-update set.
\<close>

definition scalar_model :: "real \<Rightarrow> real \<Rightarrow> vec list \<Rightarrow> string \<Rightarrow> nat \<Rightarrow> string list \<Rightarrow> emkf" where
  "scalar_model f0 m0 ys md k ev =
    \<lparr>y = ys, initial_mean = [m0], initial_covariance = [[1]], F = [[f0]],
     Q = (\<lambda>_. [[1]]), H = (\<lambda>_. [[1]]), R = (\<lambda>_. [[1]]), b = (\<lambda>_. [0]), d = (\<lambda>_. [0]),
     mode = md, tau = k, store_transition_matrices_on = True, Fs = [], em_vars = ev,
     iteration = 1, eta = 1 / 10, cutoff = 1 / 10, etab = 1 / 10, cutoffb = 1 / 10,
     n_dim_sys = 1, allocated = False, x_pred = [], V_pred = [], x_filt = [], V_filt = [],
     x_smooth = [], V_smooth = [], V_pair = []\<rparr>"

text \<open>
  A run of a scalar model on rational data computes rationals. \<open>settled x\<close> is \<open>x\<close>;
  its equation for evaluation reduces the fraction, so that an evaluated run stores each
  value as a fraction in lowest terms and not as the expression that produced it.
\<close>

definition settled :: "real \<Rightarrow> real" where
  "settled x = x"

text \<open>The object the constructor returns, and the object after the initial setting.\<close>

definition new :: "emkf \<Rightarrow> emkf" where
  "new a = projr (init a)"

definition started :: "emkf \<Rightarrow> emkf" where
  "started a = initial_setting (allocate (new a))"

text \<open>Construct, then run \<^verbatim>\<open>forward\<close>; the object after the run.\<close>

definition run :: "emkf \<Rightarrow> error + emkf" where
  "run a = forward pinv_scalar (new a)"

definition final :: "emkf \<Rightarrow> emkf" where
  "final a = projr (run a)"

text \<open>The exception a call raised, if any.\<close>

definition raised :: "error + 'a \<Rightarrow> error option" where
  "raised r = (case r of Inl e \<Rightarrow> Some e | Inr _ \<Rightarrow> None)"

section \<open>Evaluation of the arithmetic\<close>

lemma settled_code [code]:
  "settled (Ratreal r) = (case quotient_of r of (p, q) \<Rightarrow> Ratreal (Fract p q))"
  by (simp add: settled_def split: prod.splits) (metis Fract_of_int_quotient quotient_of_div)

lemma dot_code [code]: "dot u v = settled (sum_list (map2 (*) u v))"
  by (simp add: dot_def settled_def)

lemma vadd_code [code]: "vadd u v = map2 (\<lambda>a b. settled (a + b)) u v"
  by (simp add: vadd_def settled_def)

lemma vsub_code [code]: "vsub u v = map2 (\<lambda>a b. settled (a - b)) u v"
  by (simp add: vsub_def settled_def)

lemma vscale_code [code]: "vscale c v = map (\<lambda>a. settled (c * a)) v"
  by (simp add: vscale_def settled_def)

lemma outer_code [code]: "outer u v = map (\<lambda>a. map (\<lambda>b. settled (a * b)) v) u"
  by (simp add: outer_def settled_def)

lemma pinv_scalar_code [code]: "pinv_scalar A = map (map (\<lambda>a. settled (inverse a))) A"
  by (simp add: pinv_scalar_def settled_def)

section \<open>Frames of the operations\<close>

lemma frame_refl: "frame st st"
  by (simp add: frame_def)

lemma frame_trans: "frame a c \<Longrightarrow> frame c e \<Longrightarrow> frame a e"
  by (simp add: frame_def)

lemma fold_frame:
  assumes "\<And>x s. frame s (f x s)"
  shows "frame st (fold f xs st)"
proof (induction xs arbitrary: st)
  case Nil
  show ?case by (simp add: frame_refl)
next
  case (Cons x xs)
  have "frame st (f x st)" by (rule assms)
  moreover have "frame (f x st) (fold f xs (f x st))" by (rule Cons.IH)
  ultimately show ?case by (simp add: frame_trans)
qed

lemma fold_keeps:
  assumes "\<And>x s. g (f x s) = g s"
  shows "g (fold f xs st) = g st"
  by (induction xs arbitrary: st) (simp_all add: assms)

lemma foldE_snoc:
  "foldE f (xs @ [x]) s = (case foldE f xs s of Inl e \<Rightarrow> Inl e | Inr s' \<Rightarrow> f x s')"
  by (induction xs arbitrary: s) (simp_all split: sum.splits)

lemma foldE_keeps:
  assumes "\<And>x s s'. f x s = Inr s' \<Longrightarrow> g s' = g s" and "foldE f xs st = Inr st'"
  shows "g st' = g st"
  using assms(2)
proof (induction xs arbitrary: st)
  case Nil
  then show ?case by simp
next
  case (Cons x xs)
  then obtain s1 where s1: "f x st = Inr s1" and r: "foldE f xs s1 = Inr st'"
    by (auto split: sum.splits)
  from Cons.IH[OF r] assms(1)[OF s1] show ?case by simp
qed

lemma predict_update_frame: "frame st (predict_update st t Fo)"
  by (simp add: frame_def predict_update_def Let_def)

lemma filter_update_frame: "frame st (filter_update pinv st t)"
  by (simp add: frame_def filter_update_def Let_def)

lemma predict_filter_frame: "frame st (predict_filter pinv Fo t st)"
  unfolding predict_filter_def
  by (rule frame_trans[OF predict_update_frame filter_update_frame])

lemma backward_step_frame: "frame st (backward_step pinv F' t st)"
  by (simp add: frame_def backward_step_def Let_def)

lemma backward_frame: "backward pinv st s k Fo = Inr st' \<Longrightarrow> frame st st'"
proof -
  assume a: "backward pinv st s k Fo = Inr st'"
  then obtain F' where Fo: "Fo = Some F'" by (cases Fo) (simp_all add: backward_def)
  let ?s2 = "st\<lparr>x_smooth := (x_smooth st)[s := x_filt st ! s]\<rparr>\<lparr>V_smooth := (V_smooth st)[s := V_filt st ! s]\<rparr>"
  have "st' = fold (backward_step pinv F') (rev [s - k..<s]) ?s2"
    using a Fo by (simp add: backward_def reversed_def Let_def)
  moreover have "frame ?s2 (fold (backward_step pinv F') (rev [s - k..<s]) ?s2)"
    by (rule fold_frame) (rule backward_step_frame)
  moreover have "frame st ?s2" by (simp add: frame_def)
  ultimately show ?thesis using frame_trans by blast
qed

lemma update_transition_matrix_frame:
  "update_transition_matrix pinv st s k Fo = Inr (st', Fe) \<Longrightarrow> frame st st'"
proof -
  assume a: "update_transition_matrix pinv st s k Fo = Inr (st', Fe)"
  then obtain st1 where b1: "backward pinv st s k Fo = Inr st1"
    by (auto simp: update_transition_matrix_def split: sum.splits)
  have "frame st1 st'"
    using a b1 by (auto simp: update_transition_matrix_def Let_def frame_def split: option.splits if_splits)
  with backward_frame[OF b1] show ?thesis using frame_trans by blast
qed


section \<open>The update rule\<close>





section \<open>The backward pass\<close>

lemma backward_step_fields:
  "x_filt (backward_step pinv F' t st) = x_filt st"
  "V_filt (backward_step pinv F' t st) = V_filt st"
  "x_pred (backward_step pinv F' t st) = x_pred st"
  "V_pred (backward_step pinv F' t st) = V_pred st"
  "F (backward_step pinv F' t st) = F st"
  "Fs (backward_step pinv F' t st) = Fs st"
  "b (backward_step pinv F' t st) = b st"
  by (simp_all add: backward_step_def Let_def)

lemma backward_step_other:
  "u \<noteq> t \<Longrightarrow> x_smooth (backward_step pinv F' t st) ! u = x_smooth st ! u"
  "u \<noteq> t \<Longrightarrow> V_smooth (backward_step pinv F' t st) ! u = V_smooth st ! u"
  "u \<noteq> t + 1 \<Longrightarrow> V_pair (backward_step pinv F' t st) ! u = V_pair st ! u"
  by (simp_all add: backward_step_def Let_def)

lemma backward_fold_fields:
  "x_filt (fold (backward_step pinv F') ts st) = x_filt st"
  "V_filt (fold (backward_step pinv F') ts st) = V_filt st"
  "x_pred (fold (backward_step pinv F') ts st) = x_pred st"
  "V_pred (fold (backward_step pinv F') ts st) = V_pred st"
  "F (fold (backward_step pinv F') ts st) = F st"
  "Fs (fold (backward_step pinv F') ts st) = Fs st"
  "b (fold (backward_step pinv F') ts st) = b st"
  by (rule fold_keeps, simp add: backward_step_fields)+

lemma backward_fold_other:
  assumes "u \<notin> set ts"
  shows "x_smooth (fold (backward_step pinv F') ts st) ! u = x_smooth st ! u"
    and "V_smooth (fold (backward_step pinv F') ts st) ! u = V_smooth st ! u"
  using assms by (induction ts arbitrary: st) (auto simp: backward_step_other)

lemma backward_fold_pair_other:
  assumes "\<forall>t\<in>set ts. u \<noteq> t + 1"
  shows "V_pair (fold (backward_step pinv F') ts st) ! u = V_pair st ! u"
  using assms by (induction ts arbitrary: st) (auto simp: backward_step_other)

lemma backward_step_smoothed_at:
  assumes "t < length (x_smooth st)" "t < length (V_smooth st)" "t + 1 < length (V_pair st)"
  shows "smoothed_at pinv F' (backward_step pinv F' t st) t"
  using assms by (simp add: smoothed_at_def backward_step_def smoother_gain_def Let_def)

lemma smoothed_at_cong:
  assumes "smoothed_at pinv F' st t"
    "x_filt st' = x_filt st" "V_filt st' = V_filt st" "x_pred st' = x_pred st" "V_pred st' = V_pred st"
    "x_smooth st' ! t = x_smooth st ! t" "x_smooth st' ! (t + 1) = x_smooth st ! (t + 1)"
    "V_smooth st' ! t = V_smooth st ! t" "V_smooth st' ! (t + 1) = V_smooth st ! (t + 1)"
    "V_pair st' ! (t + 1) = V_pair st ! (t + 1)"
  shows "smoothed_at pinv F' st' t"
  using assms by (simp add: smoothed_at_def)

lemma backward_loop_smoothed:
  assumes "s \<le> length (x_smooth st)" "s \<le> length (V_smooth st)" "s < length (V_pair st)" "k \<le> s"
  shows "\<forall>t. s - k \<le> t \<and> t < s \<longrightarrow> smoothed_at pinv F' (fold (backward_step pinv F') (rev [s - k..<s]) st) t"
  using assms(4)
proof (induction k)
  case 0
  show ?case by auto
next
  case (Suc k)
  then have ks: "k \<le> s" and lt: "s - Suc k < s" by simp_all
  let ?a = "s - Suc k"
  let ?mid = "fold (backward_step pinv F') (rev [s - k..<s]) st"
  have a1: "s - k = Suc ?a" using Suc.prems by simp
  have up: "[?a..<s] = ?a # [s - k..<s]" using lt a1 by (simp add: upt_conv_Cons)
  have fin: "fold (backward_step pinv F') (rev [?a..<s]) st = backward_step pinv F' ?a ?mid"
    by (simp add: up)
  have len: "length (x_smooth ?mid) = length (x_smooth st)" "length (V_smooth ?mid) = length (V_smooth st)"
    "length (V_pair ?mid) = length (V_pair st)"
    using fold_frame[of "backward_step pinv F'" st "rev [s - k..<s]", OF backward_step_frame]
    by (simp_all add: frame_def)
  show ?case
  proof (intro allI impI)
    fix t assume t: "s - Suc k \<le> t \<and> t < s"
    show "smoothed_at pinv F' (fold (backward_step pinv F') (rev [?a..<s]) st) t"
    proof (cases "t = ?a")
      case True
      have "smoothed_at pinv F' (backward_step pinv F' ?a ?mid) ?a"
        using assms(1,2,3) lt len by (intro backward_step_smoothed_at) simp_all
      then show ?thesis using True fin by simp
    next
      case False
      then have t': "s - k \<le> t \<and> t < s" using t a1 by simp
      have old: "smoothed_at pinv F' ?mid t" using Suc.IH[OF ks] t' by blast
      have ne: "t \<noteq> ?a" "t + 1 \<noteq> ?a" "t + 1 \<noteq> ?a + 1" using False t' a1 by simp_all
      have "smoothed_at pinv F' (backward_step pinv F' ?a ?mid) t"
        using old ne by (intro smoothed_at_cong[OF old]) (simp_all add: backward_step_fields backward_step_other)
      then show ?thesis using fin by simp
    qed
  qed
qed

lemma backward_unfold:
  "backward pinv st s k (Some F') = Inr st' \<Longrightarrow>
     st' = fold (backward_step pinv F') (rev [s - k..<s])
             (st\<lparr>x_smooth := (x_smooth st)[s := x_filt st ! s]\<rparr>\<lparr>V_smooth := (V_smooth st)[s := V_filt st ! s]\<rparr>)"
  by (simp add: backward_def reversed_def Let_def)

text \<open>
  Claim C7. In the backward pass over a block ending at \<open>s\<close> (\<^verbatim>\<open>_backward(s, k, F)\<close>,
  with the arrays covering \<open>s\<close> and \<open>k \<le> s\<close>), every \<open>t\<close> from \<open>s - 1\<close> down to \<open>s - k\<close>
  gets the gain \<open>A = V_filt[t] F pinv(V_pred[t+1])\<close>, the smoothed mean
  \<open>x_filt[t] + A (x_smooth[t+1] - x_pred[t+1])\<close>, the smoothed covariance
  \<open>V_filt[t] + A (V_smooth[t+1] - V_pred[t+1]) A\<^sup>T\<close> and the pairwise covariance
  \<open>V_pair[t+1] = V_smooth[t+1] A\<^sup>T\<close>, all read in the arrays the pass returns; the
  values at \<open>s\<close> are the filtered ones. Products are bracketed as the source does.
\<close>

theorem backward_equations:
  assumes "backward pinv st s k (Some F') = Inr st'"
    and "s < length (x_smooth st)" and "s < length (V_smooth st)" and "s < length (V_pair st)"
    and "k \<le> s" and "s - k \<le> t" and "t < s"
  shows "let A = mm (mm (V_filt st ! t) F') (pinv (V_pred st ! (t + 1)))
         in x_smooth st' ! t = vadd (x_filt st ! t) (mv A (vsub (x_smooth st' ! (t + 1)) (x_pred st ! (t + 1))))
          \<and> V_smooth st' ! t = madd (V_filt st ! t)
                (mm (mm A (msub (V_smooth st' ! (t + 1)) (V_pred st ! (t + 1)))) (mT A))
          \<and> V_pair st' ! (t + 1) = mm (V_smooth st' ! (t + 1)) (mT A)
          \<and> x_smooth st' ! s = x_filt st ! s \<and> V_smooth st' ! s = V_filt st ! s"
proof -
  let ?s2 = "st\<lparr>x_smooth := (x_smooth st)[s := x_filt st ! s]\<rparr>\<lparr>V_smooth := (V_smooth st)[s := V_filt st ! s]\<rparr>"
  have st': "st' = fold (backward_step pinv F') (rev [s - k..<s]) ?s2"
    using assms(1) by (rule backward_unfold)
  have "smoothed_at pinv F' st' t"
    unfolding st' using backward_loop_smoothed[of s ?s2 k pinv F'] assms by simp
  moreover have "x_filt st' = x_filt st" "V_filt st' = V_filt st" "x_pred st' = x_pred st" "V_pred st' = V_pred st"
    unfolding st' by (simp_all add: backward_fold_fields)
  moreover have "x_smooth st' ! s = x_filt st ! s" "V_smooth st' ! s = V_filt st ! s"
    unfolding st' using assms(2,3) by (simp_all add: backward_fold_other)
  ultimately show ?thesis by (simp add: smoothed_at_def Let_def)
qed


theorem backward_equations_witness:
  "raised (backward pinv_scalar (predict_filter pinv_scalar (Some [[1]]) 1
        (filter_update pinv_scalar (started (scalar_model 1 1 [[1], [2]] ''smooth'' 1 [''F''])) 0))
        1 1 (Some [[1]])) = None
   \<and> x_smooth (projr (backward pinv_scalar (predict_filter pinv_scalar (Some [[1]]) 1
        (filter_update pinv_scalar (started (scalar_model 1 1 [[1], [2]] ''smooth'' 1 [''F''])) 0))
        1 1 (Some [[1]]))) ! 0 = [6 / 5]
   \<and> V_pair (projr (backward pinv_scalar (predict_filter pinv_scalar (Some [[1]]) 1
        (filter_update pinv_scalar (started (scalar_model 1 1 [[1], [2]] ''smooth'' 1 [''F''])) 0))
        1 1 (Some [[1]]))) ! 1 = [[1 / 5]]"
proof -
  let ?S = "predict_filter pinv_scalar (Some [[1]]) 1
        (filter_update pinv_scalar (started (scalar_model 1 1 [[1], [2]] ''smooth'' 1 [''F''])) 0)"
  let ?R = "backward pinv_scalar ?S 1 1 (Some [[1]])"
  have ok: "raised ?R = None" by code_simp
  then have h1: "?R = Inr (projr ?R)" by (cases ?R) (simp_all add: raised_def)
  have h2: "1 < length (x_smooth ?S)" "1 < length (V_smooth ?S)" "1 < length (V_pair ?S)" by code_simp+
  have h3: "(1::nat) \<le> 1" "(1::nat) - 1 \<le> 0" "(0::nat) < 1" by simp_all
  have v: "vadd (x_filt ?S ! 0) (mv (mm (mm (V_filt ?S ! 0) [[1]]) (pinv_scalar (V_pred ?S ! (0 + 1))))
             (vsub (x_smooth (projr ?R) ! (0 + 1)) (x_pred ?S ! (0 + 1)))) = [6 / 5]"
    "mm (V_smooth (projr ?R) ! (0 + 1)) (mT (mm (mm (V_filt ?S ! 0) [[1]]) (pinv_scalar (V_pred ?S ! (0 + 1))))) = [[1 / 5]]"
    by code_simp+
  show ?thesis
    using backward_equations[OF h1 h2 h3] ok v by (simp add: Let_def)
qed

section \<open>The schedule of "smooth" mode\<close>

lemma backward_synced:
  assumes "backward pinv st s k Fo = Inr st'" "s < length (x_smooth st)" "s < length (V_smooth st)"
  shows "synced st' s"
proof -
  obtain F' where Fo: "Fo = Some F'" using assms(1) by (cases Fo) (simp_all add: backward_def)
  let ?s2 = "st\<lparr>x_smooth := (x_smooth st)[s := x_filt st ! s]\<rparr>\<lparr>V_smooth := (V_smooth st)[s := V_filt st ! s]\<rparr>"
  have st': "st' = fold (backward_step pinv F') (rev [s - k..<s]) ?s2"
    using assms(1) Fo by (simp add: backward_unfold)
  show ?thesis unfolding synced_def st' using assms(2,3)
    by (simp add: backward_fold_fields backward_fold_other)
qed

lemma update_transition_matrix_synced:
  assumes "update_transition_matrix pinv st s k Fo = Inr (st', Fe)"
    "s < length (x_smooth st)" "s < length (V_smooth st)"
  shows "synced st' s"
proof -
  obtain st1 where b1: "backward pinv st s k Fo = Inr st1"
    using assms(1) by (auto simp: update_transition_matrix_def split: sum.splits)
  have "synced st1 s" using b1 assms(2,3) by (rule backward_synced)
  moreover have "x_smooth st' = x_smooth st1 \<and> x_filt st' = x_filt st1
      \<and> V_smooth st' = V_smooth st1 \<and> V_filt st' = V_filt st1"
    using assms(1) b1
    by (auto simp: update_transition_matrix_def Let_def split: option.splits if_splits)
  ultimately show ?thesis by (simp add: synced_def)
qed

lemma em_iteration_result:
  assumes "em_iteration pinv s n (st, tv, Fe) = Inr (st', tv', Fe')"
  shows "frame st st'
       \<and> tv' = (if [s + 1..<min (s + tau st + 1) (length (y st))] = [] then tv
                else Some (last [s + 1..<min (s + tau st + 1) (length (y st))]))
       \<and> (\<exists>t. tv' = Some t \<and> (t < length (x_smooth st) \<longrightarrow> t < length (V_smooth st) \<longrightarrow> synced st' t))"
proof -
  let ?T = "length (y st)"
  let ?ts = "[s + 1..<min (s + tau st + 1) ?T]"
  define st1 where "st1 = (if n \<noteq> 0
                then (let sa = st\<lparr>x_pred := (x_pred st)[s := x_smooth st ! s]\<rparr>
                      in sa\<lparr>V_pred := (V_pred sa)[s :=
                            msub (V_smooth sa ! s) (outer (x_smooth sa ! s) (x_smooth sa ! s))]\<rparr>)
                else st)"
  define st2 where "st2 = fold (predict_filter pinv (Some Fe)) ?ts st1"
  define tw where "tw = (if ?ts = [] then tv else Some (last ?ts))"
  have f1: "frame st st1" by (simp add: st1_def frame_def Let_def)
  have f2: "frame st1 st2" unfolding st2_def by (rule fold_frame) (rule predict_filter_frame)
  have f12: "frame st st2" using f1 f2 by (rule frame_trans)
  have eq: "em_iteration pinv s n (st, tv, Fe) =
      (case tw of
         None \<Rightarrow> Inl UnboundLocalError
       | Some t \<Rightarrow>
          (case update_transition_matrix pinv st2 t
                  (length [s..<min (s + tau st + 1) ?T] - 1) (Some Fe) of
             Inl e \<Rightarrow> Inl e
           | Inr (st3, F_est') \<Rightarrow> Inr (st3, tw, F_est')))"
    unfolding st2_def st1_def tw_def by (simp only: em_iteration.simps Let_def)
  from assms obtain t where tw: "tw = Some t"
    and u: "update_transition_matrix pinv st2 t (length [s..<min (s + tau st + 1) ?T] - 1) (Some Fe) = Inr (st', Fe')"
    and tv': "tv' = tw"
    unfolding eq by (auto split: option.splits sum.splits)
  have f3: "frame st2 st'" using u by (rule update_transition_matrix_frame)
  have "t < length (x_smooth st) \<longrightarrow> t < length (V_smooth st) \<longrightarrow> synced st' t"
    using update_transition_matrix_synced[OF u] f12 by (simp add: frame_def)
  then show ?thesis using frame_trans[OF f12 f3] tv' tw by (simp add: tw_def)
qed

lemma em_iteration_cases:
  assumes "em_iteration pinv s n (st, tv, Fe) = Inr (st', tv', Fe')"
  obtains st2 t k where "frame st st2" and "F st2 = F st" and "Fs st2 = Fs st" and "b st2 = b st"
    and "V_pair st2 = V_pair st"
    and "update_transition_matrix pinv st2 t k (Some Fe) = Inr (st', Fe')"
proof -
  let ?T = "length (y st)"
  let ?ts = "[s + 1..<min (s + tau st + 1) ?T]"
  define st1 where "st1 = (if n \<noteq> 0
                then (let sa = st\<lparr>x_pred := (x_pred st)[s := x_smooth st ! s]\<rparr>
                      in sa\<lparr>V_pred := (V_pred sa)[s :=
                            msub (V_smooth sa ! s) (outer (x_smooth sa ! s) (x_smooth sa ! s))]\<rparr>)
                else st)"
  define st2 where "st2 = fold (predict_filter pinv (Some Fe)) ?ts st1"
  define tw where "tw = (if ?ts = [] then tv else Some (last ?ts))"
  have f1: "frame st st1 \<and> F st1 = F st \<and> Fs st1 = Fs st \<and> b st1 = b st \<and> V_pair st1 = V_pair st"
    by (simp add: st1_def frame_def Let_def)
  have f2: "frame st1 st2" unfolding st2_def by (rule fold_frame) (rule predict_filter_frame)
  have k2: "F st2 = F st1" "Fs st2 = Fs st1" "b st2 = b st1" "V_pair st2 = V_pair st1"
    unfolding st2_def
    by (rule fold_keeps, simp add: predict_filter_def predict_update_def filter_update_def Let_def)+
  have eq: "em_iteration pinv s n (st, tv, Fe) =
      (case tw of
         None \<Rightarrow> Inl UnboundLocalError
       | Some t \<Rightarrow>
          (case update_transition_matrix pinv st2 t
                  (length [s..<min (s + tau st + 1) ?T] - 1) (Some Fe) of
             Inl e \<Rightarrow> Inl e
           | Inr (st3, F_est') \<Rightarrow> Inr (st3, tw, F_est')))"
    unfolding st2_def st1_def tw_def by (simp only: em_iteration.simps Let_def)
  from assms obtain t where
    "update_transition_matrix pinv st2 t (length [s..<min (s + tau st + 1) ?T] - 1) (Some Fe) = Inr (st', Fe')"
    unfolding eq by (auto split: option.splits sum.splits)
  moreover have "frame st st2" using f1 f2 frame_trans by blast
  ultimately show ?thesis using that f1 k2 by simp
qed

lemma frame_full_size: "frame st st' \<Longrightarrow> full_size st \<Longrightarrow> full_size st'"
  by (simp add: frame_def full_size_def)

lemma last_block_times:
  "s + 1 < min (s + k + 1) T \<Longrightarrow> last [s + 1..<min (s + k + 1) T] = min (s + k) (T - 1)"
proof -
  assume a: "s + 1 < min (s + k + 1) T"
  then have "last [s + 1..<min (s + k + 1) T] = min (s + k + 1) T - 1"
    by (rule last_upt)
  also have "\<dots> = min (s + k) (T - 1)" using a by arith
  finally show ?thesis .
qed

lemma em_loop_result:
  assumes "foldE (em_iteration pinv s) ns (st, tv, Fe) = Inr (st', tv', Fe')" and "ns \<noteq> []"
    and "full_size st"
  shows "frame st st'
       \<and> tv' = (if s + 1 < min (s + tau st + 1) (length (y st))
                then Some (min (s + tau st) (length (y st) - 1)) else tv)
       \<and> (\<exists>t. tv' = Some t \<and> (t < length (y st) \<longrightarrow> synced st' t))"
  using assms
proof (induction ns arbitrary: st tv Fe)
  case Nil
  then show ?case by simp
next
  case (Cons n ns)
  from Cons.prems(1) obtain st1 tv1 Fe1
    where one: "em_iteration pinv s n (st, tv, Fe) = Inr (st1, tv1, Fe1)"
      and rest: "foldE (em_iteration pinv s) ns (st1, tv1, Fe1) = Inr (st', tv', Fe')"
    by (auto split: sum.splits)
  note r1 = em_iteration_result[OF one]
  have fr1: "frame st st1" using r1 by simp
  have tv1: "tv1 = (if s + 1 < min (s + tau st + 1) (length (y st))
                    then Some (min (s + tau st) (length (y st) - 1)) else tv)"
    using r1 last_block_times[of s "tau st" "length (y st)"] by auto
  have sz: "length (x_smooth st) = length (y st)" "length (V_smooth st) = length (y st)"
    using Cons.prems(3) by (simp_all add: full_size_def)
  show ?case
  proof (cases "ns = []")
    case True
    then have "st' = st1" "tv' = tv1" using rest by simp_all
    then show ?thesis using r1 tv1 sz by auto
  next
    case False
    have fs1: "full_size st1" using fr1 Cons.prems(3) by (rule frame_full_size)
    note ih = Cons.IH[OF rest False fs1]
    have eqs: "tau st1 = tau st" "y st1 = y st" using fr1 by (simp_all add: frame_def)
    have "frame st st'" using fr1 ih frame_trans by blast
    then show ?thesis using ih tv1 unfolding eqs by auto
  qed
qed

lemma smooth_block_cases:
  assumes "smooth_block pinv s (st, tv) = Inr (st', tv')"
  obtains st2 st3 Fe' where
    "st2 = filter_update pinv (if s \<noteq> 0 then predict_update st s (Some (F st)) else st) s"
    and "foldE (em_iteration pinv s) [0..<iteration st2] (st2, tv, F st) = Inr (st3, tv', Fe')"
    and "F st' = damped_clip_m (eta st3) (cutoff st3) (F st3) Fe'"
    and "frame st3 st'"
    and "x_smooth st' = x_smooth st3" and "x_filt st' = x_filt st3"
    and "V_smooth st' = V_smooth st3" and "V_filt st' = V_filt st3"
    and "b st' = b st3" and "V_pair st' = V_pair st3"
proof -
  define st2 where "st2 = filter_update pinv (if s \<noteq> 0 then predict_update st s (Some (F st)) else st) s"
  have eq: "smooth_block pinv s (st, tv) =
     (case foldE (em_iteration pinv s) [0..<iteration st2] (st2, tv, F st) of
          Inl e \<Rightarrow> Inl e
        | Inr (st3, tv', F_est') \<Rightarrow>
           Inr (if store_transition_matrices_on (st3\<lparr>F := damped_clip_m (eta st3) (cutoff st3) (F st3) F_est'\<rparr>)
                    then (st3\<lparr>F := damped_clip_m (eta st3) (cutoff st3) (F st3) F_est'\<rparr>)
                          \<lparr>Fs := (Fs (st3\<lparr>F := damped_clip_m (eta st3) (cutoff st3) (F st3) F_est'\<rparr>))
                               [s div tau (st3\<lparr>F := damped_clip_m (eta st3) (cutoff st3) (F st3) F_est'\<rparr>) + 1
                                 := F (st3\<lparr>F := damped_clip_m (eta st3) (cutoff st3) (F st3) F_est'\<rparr>)]\<rparr>
                    else st3\<lparr>F := damped_clip_m (eta st3) (cutoff st3) (F st3) F_est'\<rparr>, tv'))"
    unfolding st2_def by (simp only: smooth_block.simps Let_def)
  from assms obtain st3 Fe' where
    "foldE (em_iteration pinv s) [0..<iteration st2] (st2, tv, F st) = Inr (st3, tv', Fe')"
    and "F st' = damped_clip_m (eta st3) (cutoff st3) (F st3) Fe' \<and> frame st3 st'
       \<and> x_smooth st' = x_smooth st3 \<and> x_filt st' = x_filt st3
       \<and> V_smooth st' = V_smooth st3 \<and> V_filt st' = V_filt st3 \<and> b st' = b st3 \<and> V_pair st' = V_pair st3"
    unfolding eq by (auto simp: frame_def split: sum.splits if_splits)
  then show ?thesis using that[OF st2_def] by blast
qed

lemma smooth_block_result:
  assumes "smooth_block pinv s (st, tv) = Inr (st', tv')" and "0 < iteration st" and "full_size st"
  shows "frame st st'
       \<and> tv' = (if s + 1 < min (s + tau st + 1) (length (y st))
                then Some (min (s + tau st) (length (y st) - 1)) else tv)
       \<and> (\<exists>t. tv' = Some t \<and> (t < length (y st) \<longrightarrow> synced st' t))"
proof -
  from assms(1) obtain st2 st3 Fe' where
    st2: "st2 = filter_update pinv (if s \<noteq> 0 then predict_update st s (Some (F st)) else st) s"
    and loop: "foldE (em_iteration pinv s) [0..<iteration st2] (st2, tv, F st) = Inr (st3, tv', Fe')"
    and f3: "frame st3 st'"
    and tr: "x_smooth st' = x_smooth st3" "x_filt st' = x_filt st3"
      "V_smooth st' = V_smooth st3" "V_filt st' = V_filt st3"
    by (rule smooth_block_cases)
  have f2: "frame st st2"
    unfolding st2 using predict_update_frame filter_update_frame frame_trans frame_refl
    by (metis (full_types))
  have it: "[0..<iteration st2] \<noteq> []" using assms(2) f2 by (simp add: frame_def)
  have fs2: "full_size st2" using f2 assms(3) by (rule frame_full_size)
  note r = em_loop_result[OF loop it fs2]
  have eqs: "tau st2 = tau st" "y st2 = y st" using f2 by (simp_all add: frame_def)
  have "frame st st'" using f2 r f3 frame_trans by blast
  moreover have "\<And>t. synced st3 t \<Longrightarrow> synced st' t" using tr by (simp add: synced_def)
  ultimately show ?thesis using r unfolding eqs by auto
qed

lemma blocks_result:
  assumes "foldE (smooth_block pinv) (map (\<lambda>k. k * m) [0..<n]) (st, None) = Inr (st', tv')"
    and "0 < iteration st" and "full_size st" and "tau st = m" and "0 < m"
    and "0 < n \<longrightarrow> (n - 1) * m < length (y st)"
  shows "frame st st'
       \<and> (n = 0 \<longrightarrow> tv' = None)
       \<and> (0 < n \<longrightarrow> tv' = Some (min (n * m) (length (y st) - 1))
                   \<and> synced st' (min (n * m) (length (y st) - 1)))"
  using assms(1,6)
proof (induction n arbitrary: st' tv')
  case 0
  then show ?case by (simp add: frame_refl)
next
  case (Suc n)
  let ?T = "length (y st)"
  let ?s = "n * m"
  have sT: "?s < ?T" using Suc.prems(2) by simp
  have pre: "0 < n \<longrightarrow> (n - 1) * m < ?T"
  proof
    assume "0 < n"
    have "(n - 1) * m \<le> n * m" by (rule mult_le_mono1) simp
    then show "(n - 1) * m < ?T" using sT by (rule le_less_trans)
  qed
  from Suc.prems(1) obtain st1 tv1
    where mid: "foldE (smooth_block pinv) (map (\<lambda>k. k * m) [0..<n]) (st, None) = Inr (st1, tv1)"
      and blk: "smooth_block pinv ?s (st1, tv1) = Inr (st', tv')"
    by (auto simp: foldE_snoc split: sum.splits)
  note ih = Suc.IH[OF mid pre]
  have fr1: "frame st st1" using ih by simp
  have eqs: "tau st1 = m" "y st1 = y st" "0 < iteration st1"
    using fr1 assms(2,4) by (simp_all add: frame_def)
  have fs1: "full_size st1" using fr1 assms(3) by (rule frame_full_size)
  note r = smooth_block_result[OF blk eqs(3) fs1]
  have fr: "frame st st'" using fr1 r frame_trans by blast
  from r obtain t where t: "tv' = Some t" and syn: "t < ?T \<longrightarrow> synced st' t"
    unfolding eqs by blast
  have tv': "tv' = (if ?s + 1 < min (?s + m + 1) ?T then Some (min (?s + m) (?T - 1)) else tv1)"
    using r unfolding eqs by simp
  have val: "t = min (Suc n * m) (?T - 1)"
  proof (cases "?s + 1 < ?T")
    case True
    then have "?s + 1 < min (?s + m + 1) ?T" using assms(5) by simp
    then show ?thesis using tv' t by (simp add: add.commute)
  next
    case False
    then have sl: "?s = ?T - 1" using sT by simp
    have c: "\<not> ?s + 1 < min (?s + m + 1) ?T" using False by simp
    have "tv' = tv1" using tv' by (simp only: c if_False)
    then have "tv1 = Some t" using t by simp
    then have "0 < n" using ih by (cases n) auto
    then have "tv1 = Some (min (n * m) (?T - 1))" using ih by simp
    then have "t = ?T - 1" using \<open>tv1 = Some t\<close> sl by simp
    moreover have "?T - 1 \<le> Suc n * m" using sl by simp
    ultimately show ?thesis by (simp add: min_def)
  qed
  have "t < ?T" using val sT by (simp add: min_def split: if_splits)
  then show ?case using fr t val syn by simp
qed

lemma block_count:
  assumes "0 < (m::nat)" "0 < T"
  shows "0 < (T + m - 1) div m" "((T + m - 1) div m - 1) * m < T" "T \<le> (T + m - 1) div m * m"
proof -
  let ?n = "(T + m - 1) div m"
  have dm: "?n * m + (T + m - 1) mod m = T + m - 1" by simp
  have md: "(T + m - 1) mod m < m" using assms(1) by simp
  show 3: "T \<le> ?n * m" using dm md by linarith
  show 1: "0 < ?n" using 3 assms(2) by (cases "?n") auto
  have "?n * m \<le> T + m - 1" using dm by linarith
  moreover have "(?n - 1) * m = ?n * m - m" by (simp add: diff_mult_distrib)
  ultimately show "(?n - 1) * m < T" using assms by linarith
qed

text \<open>
  Claim C4 says that after every run, in both modes, the smoothed mean and covariance at
  \<open>T - 1\<close> are the filtered ones. "filter" mode has no backward pass: the smoothed
  arrays keep the zeros of their allocation, here on two observations of the scalar model.
\<close>

theorem filter_mode_smoothed_end_counterexample:
  "raised (run (scalar_model 1 1 [[1], [2]] ''filter'' 1 [''F''])) = None
   \<and> length (y (new (scalar_model 1 1 [[1], [2]] ''filter'' 1 [''F'']))) - 1 = 1
   \<and> x_filt (final (scalar_model 1 1 [[1], [2]] ''filter'' 1 [''F''])) ! 1 = [8 / 5]
   \<and> x_smooth (final (scalar_model 1 1 [[1], [2]] ''filter'' 1 [''F''])) ! 1 = [0]
   \<and> V_filt (final (scalar_model 1 1 [[1], [2]] ''filter'' 1 [''F''])) ! 1 = [[3 / 5]]
   \<and> V_smooth (final (scalar_model 1 1 [[1], [2]] ''filter'' 1 [''F''])) ! 1 = [[0]]"
  by code_simp

text \<open>
  Claim C4, amended. After every run of \<^verbatim>\<open>forward\<close> in "smooth" mode that completes,
  with at least one inner iteration, the smoothed mean and covariance at \<open>T - 1\<close> are the
  filtered mean and covariance at \<open>T - 1\<close>.
\<close>

theorem smoothed_end_is_filtered_end:
  assumes "mode st = ''smooth''" and "0 < iteration st" and "forward pinv st = Inr st'"
  shows "x_smooth st' ! (length (y st) - 1) = x_filt st' ! (length (y st) - 1)
       \<and> V_smooth st' ! (length (y st) - 1) = V_filt st' ! (length (y st) - 1)"
proof -
  let ?T = "length (y st)"
  let ?m = "tau st"
  define st2 where "st2 = initial_setting (allocate st)"
  have T: "0 < ?T" and m: "0 < ?m"
    using assms(1,3) by (auto simp: forward_def Let_def allocate_def initial_setting_def split: if_splits)
  have p2: "y st2 = y st" "tau st2 = ?m" "iteration st2 = iteration st" "mode st2 = mode st" "full_size st2"
    by (simp_all add: st2_def allocate_def initial_setting_def Let_def full_size_def)
  have "forward pinv st = (case foldE (smooth_block pinv)
                                (map (\<lambda>k. k * ?m) [0..<(?T + ?m - 1) div ?m]) (st2, None) of
                           Inl e \<Rightarrow> Inl e
                         | Inr (st3, tv) \<Rightarrow> Inr st3)"
    using T m assms(1) p2 by (simp add: forward_def Let_def st2_def[symmetric])
  with assms(3) obtain tv where
    run: "foldE (smooth_block pinv) (map (\<lambda>k. k * ?m) [0..<(?T + ?m - 1) div ?m]) (st2, None) = Inr (st', tv)"
    by (auto split: sum.splits)
  note bc = block_count[OF m T]
  have "synced st' (min ((?T + ?m - 1) div ?m * ?m) (?T - 1))"
    using blocks_result[OF run _ p2(5) p2(2) m] assms(2) bc p2 by simp
  moreover have "min ((?T + ?m - 1) div ?m * ?m) (?T - 1) = ?T - 1" using bc(3) by simp
  ultimately show ?thesis by (simp add: synced_def)
qed


theorem smoothed_end_is_filtered_end_witness:
  "mode (new (scalar_model 1 1 [[1], [2]] ''smooth'' 1 [''F''])) = ''smooth''
   \<and> 0 < iteration (new (scalar_model 1 1 [[1], [2]] ''smooth'' 1 [''F'']))
   \<and> raised (run (scalar_model 1 1 [[1], [2]] ''smooth'' 1 [''F''])) = None
   \<and> x_smooth (final (scalar_model 1 1 [[1], [2]] ''smooth'' 1 [''F''])) ! 1
        = x_filt (final (scalar_model 1 1 [[1], [2]] ''smooth'' 1 [''F''])) ! 1
   \<and> V_smooth (final (scalar_model 1 1 [[1], [2]] ''smooth'' 1 [''F''])) ! 1
        = V_filt (final (scalar_model 1 1 [[1], [2]] ''smooth'' 1 [''F''])) ! 1
   \<and> x_filt (final (scalar_model 1 1 [[1], [2]] ''smooth'' 1 [''F''])) ! 1 = [80602 / 50201]"
proof -
  let ?A = "scalar_model 1 1 [[1], [2]] ''smooth'' 1 [''F'']"
  have h1: "mode (new ?A) = ''smooth''" by code_simp
  have h2: "0 < iteration (new ?A)" by code_simp
  have ok: "raised (run ?A) = None \<and> length (y (new ?A)) - 1 = 1 \<and> x_filt (final ?A) ! 1 = [80602 / 50201]"
    by code_simp
  then have h3: "forward pinv_scalar (new ?A) = Inr (final ?A)"
    by (cases "run ?A") (simp_all add: raised_def final_def run_def)
  show ?thesis
    using smoothed_end_is_filtered_end[OF h1 h2 h3] h1 h2 ok by simp
qed

section \<open>What the updates change\<close>

lemma predict_filter_keeps:
  "F (predict_filter pinv Fo t st) = F st"
  "Fs (predict_filter pinv Fo t st) = Fs st"
  "b (predict_filter pinv Fo t st) = b st"
  "V_pair (predict_filter pinv Fo t st) = V_pair st"
  by (simp_all add: predict_filter_def predict_update_def filter_update_def Let_def)

lemma backward_keeps:
  assumes "backward pinv st s k Fo = Inr st'"
  shows "F st' = F st" "Fs st' = Fs st" "b st' = b st"
proof -
  obtain F' where Fo: "Fo = Some F'" using assms by (cases Fo) (simp_all add: backward_def)
  have st': "st' = fold (backward_step pinv F') (rev [s - k..<s])
      (st\<lparr>x_smooth := (x_smooth st)[s := x_filt st ! s]\<rparr>\<lparr>V_smooth := (V_smooth st)[s := V_filt st ! s]\<rparr>)"
    using assms Fo by (simp add: backward_unfold)
  show "F st' = F st" "Fs st' = Fs st" "b st' = b st"
    unfolding st' by (simp_all add: backward_fold_fields)
qed

lemma update_transition_matrix_keeps:
  assumes "update_transition_matrix pinv st s k Fo = Inr (st', Fe)"
  shows "F st' = F st" "Fs st' = Fs st"
    and "b st' = b st \<or> (\<exists>e. b st' = (\<lambda>t. damped_clip_v (etab st) (cutoffb st) (b st t) e))"
    and "''b'' \<notin> set (em_vars st) \<Longrightarrow> b st' = b st"
proof -
  obtain st1 where b1: "backward pinv st s k Fo = Inr st1"
    using assms by (auto simp: update_transition_matrix_def split: sum.splits)
  note k1 = backward_keeps[OF b1]
  have fr: "frame st st1" using b1 by (rule backward_frame)
  then have e: "etab st1 = etab st" "cutoffb st1 = cutoffb st" "em_vars st1 = em_vars st"
    by (simp_all add: frame_def)
  show "F st' = F st" "Fs st' = Fs st"
    using assms b1 k1 by (auto simp: update_transition_matrix_def Let_def split: option.splits if_splits)
  show "b st' = b st \<or> (\<exists>e. b st' = (\<lambda>t. damped_clip_v (etab st) (cutoffb st) (b st t) e))"
    using assms b1 k1 e by (auto simp: update_transition_matrix_def Let_def split: option.splits if_splits)
  show "''b'' \<notin> set (em_vars st) \<Longrightarrow> b st' = b st"
    using assms b1 k1 e by (auto simp: update_transition_matrix_def Let_def split: option.splits if_splits)
qed



lemma em_loop_frame:
  assumes "foldE (em_iteration pinv s) ns (st, tv, Fe) = Inr (st', tv', Fe')"
  shows "frame st st'"
  using assms
proof (induction ns arbitrary: st tv Fe)
  case Nil
  then show ?case by (simp add: frame_refl)
next
  case (Cons n ns)
  from Cons.prems obtain st1 tv1 Fe1
    where one: "em_iteration pinv s n (st, tv, Fe) = Inr (st1, tv1, Fe1)"
      and rest: "foldE (em_iteration pinv s) ns (st1, tv1, Fe1) = Inr (st', tv', Fe')"
    by (auto split: sum.splits)
  have "frame st st1" using em_iteration_result[OF one] by simp
  then show ?case using Cons.IH[OF rest] frame_trans by blast
qed














section \<open>The schedule of "filter" mode and the history buffer\<close>

lemma lookahead_index:
  assumes "0 < (m::nat)" "t + m < T"
  shows "t div m + 1 < (T - 1) div m + 1"
proof -
  have "(t + m) div m = t div m + 1" using assms(1) by simp
  moreover have "(t + m) div m \<le> (T - 1) div m" using assms(2) by (intro div_le_mono) simp
  ultimately show ?thesis by simp
qed

lemma approximate_update_frame: "frame st (update_transition_matrix_approximately pinv st t)"
  by (auto simp: update_transition_matrix_approximately_def Let_def frame_def split: prod.splits)

lemma filter_step_cases:
  assumes "filter_step pinv t st = Inr st'"
  obtains "0 < tau st" and "st' = predict_filter pinv None t st"
  | la where "0 < tau st" and "t + tau st < length (y st)" and "(t - 1) mod tau st = 0"
      and "la = fold (predict_filter pinv None) [t..<t + tau st + 1] st"
      and "st' = predict_filter pinv None t (update_transition_matrix_approximately pinv la t)"
proof -
  define la where "la = fold (predict_filter pinv None) [t..<t + tau st + 1] st"
  have eq: "filter_step pinv t st =
     (if tau st = 0 then Inl ZeroDivisionError
      else Inr (predict_filter pinv None t
             (if (t - 1) mod tau st = 0 \<and> int t < int (length (y st)) - int (tau st)
              then update_transition_matrix_approximately pinv la t else st)))"
    unfolding la_def by (simp only: filter_step_def Let_def)
  show ?thesis
  proof (cases "(t - 1) mod tau st = 0 \<and> int t < int (length (y st)) - int (tau st)")
    case True
    then have lt: "t + tau st < length (y st)" and md: "(t - 1) mod tau st = 0" by linarith+
    have m0: "0 < tau st" using assms unfolding eq by (simp split: if_splits)
    have s': "st' = predict_filter pinv None t (update_transition_matrix_approximately pinv la t)"
      using assms True m0 unfolding eq by simp
    show ?thesis by (rule that(2)[OF m0 lt md la_def s'])
  next
    case False
    have m0: "0 < tau st" using assms unfolding eq by (simp split: if_splits)
    have s': "st' = predict_filter pinv None t st"
      using assms False m0 unfolding eq by auto
    show ?thesis by (rule that(1)[OF m0 s'])
  qed
qed

lemma lookahead_frame:
  "frame st (fold (predict_filter pinv None) ts st)"
  "Fs (fold (predict_filter pinv None) ts st) = Fs st"
  "V_pair (fold (predict_filter pinv None) ts st) = V_pair st"
  "b (fold (predict_filter pinv None) ts st) = b st"
proof -
  show "frame st (fold (predict_filter pinv None) ts st)"
    by (rule fold_frame) (rule predict_filter_frame)
  show "Fs (fold (predict_filter pinv None) ts st) = Fs st"
    by (rule fold_keeps) (rule predict_filter_keeps)
  show "V_pair (fold (predict_filter pinv None) ts st) = V_pair st"
    by (rule fold_keeps) (rule predict_filter_keeps)
  show "b (fold (predict_filter pinv None) ts st) = b st"
    by (rule fold_keeps) (rule predict_filter_keeps)
qed

lemma filter_step_frame: "filter_step pinv t st = Inr st' \<Longrightarrow> frame st st'"
proof (erule filter_step_cases)
  assume "st' = predict_filter pinv None t st"
  then show "frame st st'" by (simp add: predict_filter_frame)
next
  fix la assume la: "la = fold (predict_filter pinv None) [t..<t + tau st + 1] st"
    and st': "st' = predict_filter pinv None t (update_transition_matrix_approximately pinv la t)"
  have "frame st la" unfolding la by (rule lookahead_frame)
  then have "frame st (update_transition_matrix_approximately pinv la t)"
    using approximate_update_frame frame_trans by blast
  then show "frame st st'" unfolding st' using predict_filter_frame frame_trans by blast
qed

lemma filter_step_last_slot:
  assumes "filter_step pinv t st = Inr st'"
  shows "Fs st' ! ((length (y st) - 1) div tau st + 1) = Fs st ! ((length (y st) - 1) div tau st + 1)"
  using assms
proof (rule filter_step_cases)
  assume "st' = predict_filter pinv None t st"
  then show ?thesis by (simp add: predict_filter_keeps)
next
  fix la assume m: "0 < tau st" and lt: "t + tau st < length (y st)"
    and la: "la = fold (predict_filter pinv None) [t..<t + tau st + 1] st"
    and st': "st' = predict_filter pinv None t (update_transition_matrix_approximately pinv la t)"
  have l1: "Fs la = Fs st" unfolding la by (rule lookahead_frame)
  have "frame st la" unfolding la by (rule lookahead_frame)
  then have l2: "tau la = tau st" by (simp add: frame_def)
  have "t div tau st + 1 \<noteq> (length (y st) - 1) div tau st + 1"
    using lookahead_index[OF m lt] by simp
  then have "Fs (update_transition_matrix_approximately pinv la t) ! ((length (y st) - 1) div tau st + 1)
        = Fs st ! ((length (y st) - 1) div tau st + 1)"
    using l1 l2 by (auto simp: update_transition_matrix_approximately_def Let_def split: prod.splits)
  then show ?thesis unfolding st' by (simp add: predict_filter_keeps)
qed

lemma filter_step_V_pair: "filter_step pinv t st = Inr st' \<Longrightarrow> V_pair st' = V_pair st"
proof (erule filter_step_cases)
  assume "st' = predict_filter pinv None t st"
  then show "V_pair st' = V_pair st" by (simp add: predict_filter_keeps)
next
  fix la assume la: "la = fold (predict_filter pinv None) [t..<t + tau st + 1] st"
    and st': "st' = predict_filter pinv None t (update_transition_matrix_approximately pinv la t)"
  have "V_pair la = V_pair st" unfolding la by (rule lookahead_frame)
  then show "V_pair st' = V_pair st" unfolding st'
    by (auto simp: predict_filter_keeps update_transition_matrix_approximately_def Let_def split: prod.splits)
qed

lemma forward_filter_mode:
  assumes "mode st = ''filter''" and "forward pinv st = Inr st'"
  shows "0 < length (y st)"
    and "foldE (filter_step pinv) [1..<length (y st)]
           (filter_update pinv (initial_setting (allocate st)) 0) = Inr st'"
proof -
  show T: "0 < length (y st)" using assms by (auto simp: forward_def Let_def split: if_splits)
  have "mode (initial_setting (allocate st)) = ''filter''"
    using assms(1) by (simp add: initial_setting_def allocate_def Let_def)
  then show "foldE (filter_step pinv) [1..<length (y st)]
           (filter_update pinv (initial_setting (allocate st)) 0) = Inr st'"
    using assms(2) T by (simp add: forward_def Let_def)
qed

lemma init_fields:
  assumes "init a = Inr st"
  shows "mode a = ''filter'' \<or> mode a = ''smooth''"
    and "store_transition_matrices_on a \<Longrightarrow> 0 < tau a"
    and "y st = y a" and "tau st = tau a" and "mode st = mode a"
    and "store_transition_matrices_on st = store_transition_matrices_on a"
    and "store_transition_matrices_on a \<Longrightarrow>
         Fs st = (replicate (nat ((int (length (y a)) - 1) div int (tau a) + 1 + 1))
                     (mzeros (length (F a)) (length (hd (F a)))))[0 := F a]"
    and "F st = F a" and "b st = b a" and "\<not> allocated st"
proof -
  have c1: "\<not> (mode a \<noteq> ''filter'' \<and> mode a \<noteq> ''smooth'')"
    using assms unfolding init_def by (cases "mode a \<noteq> ''filter'' \<and> mode a \<noteq> ''smooth''") simp_all
  have c2: "\<not> (store_transition_matrices_on a \<and> tau a = 0)"
    using assms c1 unfolding init_def by (cases "store_transition_matrices_on a \<and> tau a = 0") simp_all
  define r where "r = projr (init a)"
  have st: "st = r" using assms by (simp add: r_def)
  have r: "y r = y a" "tau r = tau a" "mode r = mode a"
    "store_transition_matrices_on r = store_transition_matrices_on a"
    "F r = F a" "b r = b a" "\<not> allocated r"
    "Fs r = (if store_transition_matrices_on a
             then (replicate (nat ((int (length (y a)) - 1) div int (tau a) + 1 + 1))
                     (mzeros (length (F a)) (length (hd (F a)))))[0 := F a] else [])"
    unfolding r_def init_def by (simp_all only: c1 c2 if_False sum.sel, simp_all)
  show "mode a = ''filter'' \<or> mode a = ''smooth''" using c1 by simp
  show "store_transition_matrices_on a \<Longrightarrow> 0 < tau a" using c2 by simp
  show "y st = y a" "tau st = tau a" "mode st = mode a"
    "store_transition_matrices_on st = store_transition_matrices_on a"
    "F st = F a" "b st = b a" "\<not> allocated st"
    "store_transition_matrices_on a \<Longrightarrow>
         Fs st = (replicate (nat ((int (length (y a)) - 1) div int (tau a) + 1 + 1))
                     (mzeros (length (F a)) (length (hd (F a)))))[0 := F a]"
    unfolding st using r by simp_all
qed

text \<open>
  Claim C10 says that in "filter" mode the history never ends with the final learned
  \<open>F\<close>. The last entry is the zero matrix of the allocation, and so is the final \<open>F\<close>
  of this run, which starts from \<open>F = 0\<close> on observations that are all zero.
\<close>

theorem history_ends_with_final_F_counterexample:
  "raised (run (scalar_model 0 0 [[0], [0], [0]] ''filter'' 1 [''F''])) = None
   \<and> get_transition_matrices (final (scalar_model 0 0 [[0], [0], [0]] ''filter'' 1 [''F'']))
       = History (Fs (final (scalar_model 0 0 [[0], [0], [0]] ''filter'' 1 [''F''])))
   \<and> last (Fs (final (scalar_model 0 0 [[0], [0], [0]] ''filter'' 1 [''F''])))
       = F (final (scalar_model 0 0 [[0], [0], [0]] ''filter'' 1 [''F'']))"
  by code_simp

text \<open>
  Claim C10, amended. In "filter" mode with history retention, after a run that completes
  the history that \<^verbatim>\<open>get_transition_matrices()\<close> returns has \<open>(T - 1) div tau + 2\<close>
  entries; every update writes at an index below the last one, \<open>(T - 1) div tau + 1\<close>,
  and the last entry is the zero matrix of the allocation; so the history ends with the
  final \<open>F\<close> exactly when that \<open>F\<close> is the zero matrix.
\<close>

theorem history_last_slot:
  assumes "init a = Inr st" and "mode a = ''filter''" and "store_transition_matrices_on a"
    and "forward pinv st = Inr st'"
  shows "get_transition_matrices st' = History (Fs st')
       \<and> length (Fs st') = (length (y a) - 1) div tau a + 2
       \<and> Fs st' ! ((length (y a) - 1) div tau a + 1) = mzeros (length (F a)) (length (hd (F a)))
       \<and> (\<forall>t. int t < int (length (y a)) - int (tau a)
             \<longrightarrow> t div tau a + 1 < (length (y a) - 1) div tau a + 1)
       \<and> (last (Fs st') = F st' \<longleftrightarrow> F st' = mzeros (length (F a)) (length (hd (F a))))"
proof -
  let ?T = "length (y a)"
  let ?m = "tau a"
  let ?K = "(?T - 1) div ?m + 1"
  let ?Z = "mzeros (length (F a)) (length (hd (F a)))"
  note i = init_fields[OF assms(1)]
  have m: "0 < ?m" using i(2) assms(3) by simp
  have st: "y st = y a" "tau st = ?m" "mode st = ''filter''" "store_transition_matrices_on st"
    "Fs st = (replicate (nat ((int ?T - 1) div int ?m + 1 + 1)) ?Z)[0 := F a]"
    using i assms(2,3) by simp_all
  note run = forward_filter_mode[OF st(3) assms(4)]
  have T: "0 < ?T" using run(1) st(1) by simp
  have "int ?T - 1 = int (?T - 1)" using T by linarith
  then have "(int ?T - 1) div int ?m = int ((?T - 1) div ?m)" by (simp only: zdiv_int)
  then have len0: "nat ((int ?T - 1) div int ?m + 1 + 1) = ?K + 1" by simp
  let ?s0 = "filter_update pinv (initial_setting (allocate st)) 0"
  have s0: "y ?s0 = y a" "tau ?s0 = ?m" "Fs ?s0 = Fs st" "store_transition_matrices_on ?s0"
    using st by (simp_all add: filter_update_def initial_setting_def allocate_def Let_def)
  have keep: "(\<lambda>s. (y s, tau s, store_transition_matrices_on s, length (Fs s),
                  Fs s ! ((length (y s) - 1) div tau s + 1))) st'
            = (\<lambda>s. (y s, tau s, store_transition_matrices_on s, length (Fs s),
                  Fs s ! ((length (y s) - 1) div tau s + 1))) ?s0"
  proof (rule foldE_keeps[OF _ run(2)[unfolded st(1)]])
    fix t s s' assume a: "filter_step pinv t s = Inr s'"
    have "frame s s'" using a by (rule filter_step_frame)
    then have eqs: "y s' = y s" "tau s' = tau s" "length (Fs s') = length (Fs s)"
      "store_transition_matrices_on s' = store_transition_matrices_on s"
      by (simp_all add: frame_def)
    show "(y s', tau s', store_transition_matrices_on s', length (Fs s'),
            Fs s' ! ((length (y s') - 1) div tau s' + 1))
        = (y s, tau s, store_transition_matrices_on s, length (Fs s),
            Fs s ! ((length (y s) - 1) div tau s + 1))"
      using filter_step_last_slot[OF a] eqs by simp
  qed
  have k: "y st' = y a" "tau st' = ?m" "store_transition_matrices_on st'"
    "length (Fs st') = length (Fs st)"
    using keep s0 by simp_all
  have k5: "Fs st' ! ?K = Fs st ! ?K" using keep s0 k(1,2) by simp
  have Fs0: "Fs st = (replicate (?K + 1) ?Z)[0 := F a]" using st(5) len0 by simp
  have len: "length (Fs st') = ?K + 1" using k(4) Fs0 by simp
  have "Fs st ! ?K = (replicate (?K + 1) ?Z) ! ?K" unfolding Fs0 by (rule nth_list_update_neq) simp
  also have "\<dots> = ?Z" by (rule nth_replicate) simp
  finally have "Fs st ! ?K = ?Z" .
  then have slot: "Fs st' ! ?K = ?Z" using k5 by simp
  have hist: "get_transition_matrices st' = History (Fs st')"
    using k(3) by (simp add: get_transition_matrices_def)
  have lastK: "last (Fs st') = ?Z"
  proof -
    have "Fs st' \<noteq> []" using len by auto
    then have "last (Fs st') = Fs st' ! (length (Fs st') - 1)" by (rule last_conv_nth)
    then show ?thesis using len slot by simp
  qed
  have idx: "\<forall>t. int t < int ?T - int ?m \<longrightarrow> t div ?m + 1 < ?K"
  proof (intro allI impI)
    fix t assume "int t < int ?T - int ?m"
    then have "t + ?m < ?T" by linarith
    then show "t div ?m + 1 < ?K" by (rule lookahead_index[OF m])
  qed
  show ?thesis using hist len slot idx lastK by auto
qed

theorem history_last_slot_witness:
  "raised (init (scalar_model 1 1 [[1], [2], [3]] ''filter'' 1 [''F''])) = None
   \<and> mode (scalar_model 1 1 [[1], [2], [3]] ''filter'' 1 [''F'']) = ''filter''
   \<and> store_transition_matrices_on (scalar_model 1 1 [[1], [2], [3]] ''filter'' 1 [''F''])
   \<and> raised (run (scalar_model 1 1 [[1], [2], [3]] ''filter'' 1 [''F''])) = None
   \<and> length (Fs (final (scalar_model 1 1 [[1], [2], [3]] ''filter'' 1 [''F'']))) = 4
   \<and> Fs (final (scalar_model 1 1 [[1], [2], [3]] ''filter'' 1 [''F''])) ! 3 = [[0]]
   \<and> F (final (scalar_model 1 1 [[1], [2], [3]] ''filter'' 1 [''F''])) = [[101 / 100]]"
proof -
  let ?A = "scalar_model 1 1 [[1], [2], [3]] ''filter'' 1 [''F'']"
  have i: "raised (init ?A) = None" by code_simp
  then have h1: "init ?A = Inr (new ?A)" by (cases "init ?A") (simp_all add: raised_def new_def)
  have h2: "mode ?A = ''filter''" and h3: "store_transition_matrices_on ?A"
    by (simp_all add: scalar_model_def)
  have ok: "raised (run ?A) = None" and fin: "F (final ?A) = [[101 / 100]]" by code_simp+
  then have h4: "forward pinv_scalar (new ?A) = Inr (final ?A)"
    by (cases "run ?A") (simp_all add: raised_def final_def run_def)
  have n: "(length (y ?A) - 1) div tau ?A + 1 = 3" "(length (y ?A) - 1) div tau ?A + 2 = 4"
    "mzeros (length (F ?A)) (length (hd (F ?A))) = [[0]]"
    by (simp_all add: scalar_model_def mzeros_def vzeros_def)
  note t = history_last_slot[OF h1 h2 h3 h4, unfolded n]
  show ?thesis
    by (intro conjI i h2 h3 ok fin t[THEN conjunct2, THEN conjunct1]
          t[THEN conjunct2, THEN conjunct2, THEN conjunct1])
qed

section \<open>The filter update\<close>

lemma vsub_vadd: "vsub u (vadd v w) = vsub (vsub u v) w"
proof (rule nth_equalityI)
  show "length (vsub u (vadd v w)) = length (vsub (vsub u v) w)"
    by (simp add: vsub_def vadd_def)
next
  fix i assume "i < length (vsub u (vadd v w))"
  then show "vsub u (vadd v w) ! i = vsub (vsub u v) w ! i"
    by (simp add: vsub_def vadd_def)
qed

text \<open>
  Claim C6. At every time \<open>t\<close> of the arrays, \<^verbatim>\<open>_filter_update(t)\<close> computes the gain
  \<open>K = V_pred[t] H\<^sup>T pinv(H V_pred[t] H\<^sup>T + R)\<close>, the filtered mean
  \<open>x_pred[t] + K (y[t] - H x_pred[t] - d)\<close> and the filtered covariance
  \<open>V_pred[t] - K H V_pred[t]\<close>. The operation has no error branch: it is a total function
  of any pseudo-inverse \<open>pinv\<close>. Products are bracketed as the source does.
\<close>

theorem filter_update_equations:
  assumes "t < length (x_filt st)" and "t < length (V_filt st)"
  shows "let st' = filter_update pinv st t;
             S = madd (mm (H st t) (mm (V_pred st ! t) (mT (H st t)))) (R st t);
             K = mm (V_pred st ! t) (mm (mT (H st t)) (pinv S))
         in x_filt st' ! t
              = vadd (x_pred st ! t) (mv K (vsub (vsub (y st ! t) (mv (H st t) (x_pred st ! t))) (d st t)))
          \<and> V_filt st' ! t = msub (V_pred st ! t) (mm K (mm (H st t) (V_pred st ! t)))"
  using assms by (simp add: filter_update_def kalman_gain_def Let_def vsub_vadd)

theorem filter_update_equations_witness:
  "0 < length (x_filt (started (scalar_model 1 1 [[3]] ''filter'' 1 [''F''])))
   \<and> 0 < length (V_filt (started (scalar_model 1 1 [[3]] ''filter'' 1 [''F''])))
   \<and> x_filt (filter_update pinv_scalar (started (scalar_model 1 1 [[3]] ''filter'' 1 [''F''])) 0) ! 0 = [2]
   \<and> V_filt (filter_update pinv_scalar (started (scalar_model 1 1 [[3]] ''filter'' 1 [''F''])) 0) ! 0 = [[1 / 2]]"
proof -
  let ?S = "started (scalar_model 1 1 [[3]] ''filter'' 1 [''F''])"
  let ?K = "mm (V_pred ?S ! 0) (mm (mT (H ?S 0))
              (pinv_scalar (madd (mm (H ?S 0) (mm (V_pred ?S ! 0) (mT (H ?S 0)))) (R ?S 0))))"
  have h: "0 < length (x_filt ?S)" "0 < length (V_filt ?S)" by code_simp+
  have v: "vadd (x_pred ?S ! 0) (mv ?K (vsub (vsub (y ?S ! 0) (mv (H ?S 0) (x_pred ?S ! 0))) (d ?S 0))) = [2]"
    "msub (V_pred ?S ! 0) (mm ?K (mm (H ?S 0) (V_pred ?S ! 0))) = [[1 / 2]]"
    by code_simp+
  show ?thesis
    using filter_update_equations[OF h, of pinv_scalar] h v by (simp add: Let_def)
qed

section \<open>Runs that depart from the specification\<close>

text \<open>
  In "smooth" mode a run with an inner iteration completes only when the transition
  matrix is in the EM-update set.
\<close>

lemma foldE_Cons_Inr: "foldE f (x # xs) s = Inr r \<Longrightarrow> \<exists>s1. f x s = Inr s1"
  by (simp split: sum.splits)

lemma update_transition_matrix_needs_F:
  assumes "update_transition_matrix pinv st s k Fo = Inr (st', Fe)"
  shows "''F'' \<in> set (em_vars st)"
proof -
  obtain st1 where b1: "backward pinv st s k Fo = Inr st1"
    using assms by (auto simp: update_transition_matrix_def split: sum.splits)
  have "em_vars st1 = em_vars st" using backward_frame[OF b1] by (simp add: frame_def)
  then show ?thesis
    using assms b1 by (auto simp: update_transition_matrix_def Let_def split: option.splits if_splits)
qed

lemma em_iteration_needs_F:
  assumes "em_iteration pinv s n (st, tv, Fe) = Inr (st', tv', Fe')"
  shows "''F'' \<in> set (em_vars st)"
proof -
  from assms obtain st2 t k where fr: "frame st st2"
    and u: "update_transition_matrix pinv st2 t k (Some Fe) = Inr (st', Fe')"
    by (rule em_iteration_cases)
  show ?thesis using update_transition_matrix_needs_F[OF u] fr by (simp add: frame_def)
qed

lemma smooth_block_needs_F:
  assumes "smooth_block pinv s (st, tv) = Inr (st', tv')" and "0 < iteration st"
  shows "''F'' \<in> set (em_vars st)"
proof -
  from assms(1) obtain st2 st3 Fe' where
    st2: "st2 = filter_update pinv (if s \<noteq> 0 then predict_update st s (Some (F st)) else st) s"
    and loop: "foldE (em_iteration pinv s) [0..<iteration st2] (st2, tv, F st) = Inr (st3, tv', Fe')"
    by (rule smooth_block_cases)
  have f2: "frame st st2"
    unfolding st2 using predict_update_frame filter_update_frame frame_trans frame_refl
    by (metis (full_types))
  then have "0 < iteration st2" using assms(2) by (simp add: frame_def)
  then have "[0..<iteration st2] = 0 # [1..<iteration st2]" by (simp add: upt_conv_Cons)
  with loop obtain p where e: "em_iteration pinv s 0 (st2, tv, F st) = Inr p"
    using foldE_Cons_Inr[of "em_iteration pinv s" 0 "[1..<iteration st2]"] by metis
  obtain a1 a2 a3 where p: "p = (a1, a2, a3)" by (cases p)
  have "''F'' \<in> set (em_vars st2)" by (rule em_iteration_needs_F[OF e[unfolded p]])
  then show ?thesis using f2 by (simp add: frame_def)
qed

lemma smooth_mode_needs_F:
  assumes "mode st = ''smooth''" and "0 < iteration st" and "''F'' \<notin> set (em_vars st)"
  shows "forward pinv st \<noteq> Inr st'"
proof
  assume run: "forward pinv st = Inr st'"
  let ?T = "length (y st)"
  let ?m = "tau st"
  define st2 where "st2 = initial_setting (allocate st)"
  have T: "0 < ?T" and m: "0 < ?m"
    using assms(1) run by (auto simp: forward_def Let_def allocate_def initial_setting_def split: if_splits)
  have p2: "tau st2 = ?m" "iteration st2 = iteration st" "mode st2 = mode st" "em_vars st2 = em_vars st"
    by (simp_all add: st2_def allocate_def initial_setting_def Let_def)
  have "forward pinv st = (case foldE (smooth_block pinv)
                                (map (\<lambda>k. k * ?m) [0..<(?T + ?m - 1) div ?m]) (st2, None) of
                           Inl e \<Rightarrow> Inl e
                         | Inr (st3, tv) \<Rightarrow> Inr st3)"
    using T m assms(1) p2 by (simp add: forward_def Let_def st2_def[symmetric])
  with run obtain tv where
    blocks: "foldE (smooth_block pinv) (map (\<lambda>k. k * ?m) [0..<(?T + ?m - 1) div ?m]) (st2, None) = Inr (st', tv)"
    by (auto split: sum.splits)
  have "0 < (?T + ?m - 1) div ?m" using block_count(1)[OF m T] .
  then have "[0..<(?T + ?m - 1) div ?m] = 0 # [1..<(?T + ?m - 1) div ?m]" by (simp add: upt_conv_Cons)
  with blocks obtain p where e: "smooth_block pinv 0 (st2, None) = Inr p"
    using foldE_Cons_Inr[of "smooth_block pinv" "0 * ?m" "map (\<lambda>k. k * ?m) [1..<(?T + ?m - 1) div ?m]"]
    by (metis list.simps(9) mult_zero_left)
  obtain a1 a2 where p: "p = (a1, a2)" by (cases p)
  have "0 < iteration st2" using assms(2) p2 by simp
  then have "''F'' \<in> set (em_vars st2)" by (rule smooth_block_needs_F[OF e[unfolded p]])
  then show False using assms(3) p2 by simp
qed

text \<open>
  Claim C2: with the EM-update set empty a run completes without error, as a plain
  Kalman filter and smoother. In "smooth" mode \<^verbatim>\<open>_update_transition_matrix\<close> then
  returns a local it never bound, and the first block raises.
\<close>

theorem empty_em_vars_smooth_run_raises:
  "em_vars (new (scalar_model 1 1 [[1], [2], [3]] ''smooth'' 1 [])) = []
   \<and> raised (run (scalar_model 1 1 [[1], [2], [3]] ''smooth'' 1 [])) = Some UnboundLocalError"
  by code_simp

text \<open>In both modes a run leaves alone an offset that is not in the EM-update set.\<close>

lemma em_iteration_b:
  assumes "em_iteration pinv s n (st, tv, Fe) = Inr (st', tv', Fe')"
  shows "em_vars st' = em_vars st" and "''b'' \<notin> set (em_vars st) \<Longrightarrow> b st' = b st"
proof -
  from assms obtain st2 t k where fr: "frame st st2" and b2: "b st2 = b st"
    and u: "update_transition_matrix pinv st2 t k (Some Fe) = Inr (st', Fe')"
    by (rule em_iteration_cases)
  have e2: "em_vars st2 = em_vars st" using fr by (simp add: frame_def)
  show "em_vars st' = em_vars st"
    using update_transition_matrix_frame[OF u] e2 by (simp add: frame_def)
  show "''b'' \<notin> set (em_vars st) \<Longrightarrow> b st' = b st"
    using update_transition_matrix_keeps(4)[OF u] e2 b2 by simp
qed

lemma em_loop_b:
  assumes "foldE (em_iteration pinv s) ns (st, tv, Fe) = Inr (st', tv', Fe')"
    and "''b'' \<notin> set (em_vars st)"
  shows "b st' = b st"
proof -
  let ?g = "\<lambda>p. (em_vars (fst p), if ''b'' \<in> set (em_vars (fst p)) then None else Some (b (fst p)))"
  have step: "?g p' = ?g p" if a: "em_iteration pinv s x p = Inr p'" for x p p'
  proof -
    obtain a1 a2 a3 where p: "p = (a1, a2, a3)" by (cases p)
    obtain c1 c2 c3 where p': "p' = (c1, c2, c3)" by (cases p')
    show ?thesis
      using em_iteration_b[OF a[unfolded p p']] by (simp add: p p')
  qed
  have "?g (st', tv', Fe') = ?g (st, tv, Fe)"
  proof (rule foldE_keeps[where g = ?g and f = "em_iteration pinv s", OF _ assms(1)])
    fix x p p' assume "em_iteration pinv s x p = Inr p'"
    then show "?g p' = ?g p" by (rule step)
  qed
  then show ?thesis using assms(2) by (simp split: if_splits)
qed

lemma smooth_block_b:
  assumes "smooth_block pinv s (st, tv) = Inr (st', tv')"
  shows "em_vars st' = em_vars st" and "''b'' \<notin> set (em_vars st) \<Longrightarrow> b st' = b st"
proof -
  from assms(1) obtain st2 st3 Fe' where
    st2: "st2 = filter_update pinv (if s \<noteq> 0 then predict_update st s (Some (F st)) else st) s"
    and loop: "foldE (em_iteration pinv s) [0..<iteration st2] (st2, tv, F st) = Inr (st3, tv', Fe')"
    and f3: "frame st3 st'" and b3: "b st' = b st3"
    by (rule smooth_block_cases)
  have f2: "frame st st2"
    unfolding st2 using predict_update_frame filter_update_frame frame_trans frame_refl
    by (metis (full_types))
  have b2: "b st2 = b st" by (simp add: st2 filter_update_def predict_update_def Let_def)
  have e2: "em_vars st2 = em_vars st" using f2 by (simp add: frame_def)
  show "em_vars st' = em_vars st"
    using f2 em_loop_frame[OF loop] f3 by (simp add: frame_def)
  show "''b'' \<notin> set (em_vars st) \<Longrightarrow> b st' = b st"
    using em_loop_b[OF loop] e2 b2 b3 by simp
qed

lemma filter_step_b: "filter_step pinv t st = Inr st' \<Longrightarrow> b st' = b st"
proof (erule filter_step_cases)
  assume "st' = predict_filter pinv None t st"
  then show "b st' = b st" by (simp add: predict_filter_keeps)
next
  fix la assume la: "la = fold (predict_filter pinv None) [t..<t + tau st + 1] st"
    and st': "st' = predict_filter pinv None t (update_transition_matrix_approximately pinv la t)"
  have "b la = b st" unfolding la by (rule lookahead_frame)
  then show "b st' = b st" unfolding st'
    by (auto simp: predict_filter_keeps update_transition_matrix_approximately_def Let_def split: prod.splits)
qed

lemma offset_outside_em_vars_is_kept:
  assumes "''b'' \<notin> set (em_vars st)" and "forward pinv st = Inr st'"
  shows "b st' = b st"
proof -
  let ?T = "length (y st)"
  let ?m = "tau st"
  define st2 where "st2 = initial_setting (allocate st)"
  have p2: "tau st2 = ?m" "mode st2 = mode st" "em_vars st2 = em_vars st" "b st2 = b st"
    by (simp_all add: st2_def allocate_def initial_setting_def Let_def)
  have T: "0 < ?T" using assms(2) by (auto simp: forward_def Let_def split: if_splits)
  consider "mode st = ''smooth''" | "mode st \<noteq> ''smooth''" "mode st = ''filter''"
    | "mode st \<noteq> ''smooth''" "mode st \<noteq> ''filter''" by blast
  then show ?thesis
  proof cases
    case 1
    have m: "0 < ?m" using 1 assms(2) T p2
      by (auto simp: forward_def Let_def st2_def[symmetric] split: if_splits)
    have "forward pinv st = (case foldE (smooth_block pinv)
                                (map (\<lambda>k. k * ?m) [0..<(?T + ?m - 1) div ?m]) (st2, None) of
                           Inl e \<Rightarrow> Inl e
                         | Inr (st3, tv) \<Rightarrow> Inr st3)"
      using T m 1 p2 by (simp add: forward_def Let_def st2_def[symmetric])
    with assms(2) obtain tv where
      blocks: "foldE (smooth_block pinv) (map (\<lambda>k. k * ?m) [0..<(?T + ?m - 1) div ?m]) (st2, None) = Inr (st', tv)"
      by (auto split: sum.splits)
    let ?g = "\<lambda>p. (em_vars (fst p), if ''b'' \<in> set (em_vars (fst p)) then None else Some (b (fst p)))"
    have step: "?g p' = ?g p" if a: "smooth_block pinv x p = Inr p'" for x p p'
    proof -
      obtain a1 a2 where p: "p = (a1, a2)" by (cases p)
      obtain c1 c2 where p': "p' = (c1, c2)" by (cases p')
      show ?thesis
        using smooth_block_b[OF a[unfolded p p']] by (simp add: p p')
    qed
    have "?g (st', tv) = ?g (st2, None :: nat option)"
    proof (rule foldE_keeps[where g = ?g and f = "smooth_block pinv", OF _ blocks])
      fix x p p' assume "smooth_block pinv x p = Inr p'"
      then show "?g p' = ?g p" by (rule step)
    qed
    then show ?thesis using assms(1) p2 by (simp split: if_splits)
  next
    case 2
    have "b st' = b (filter_update pinv (initial_setting (allocate st)) 0)"
      using filter_step_b forward_filter_mode(2)[OF 2(2) assms(2)] by (rule foldE_keeps)
    then show ?thesis by (simp add: filter_update_def initial_setting_def allocate_def Let_def)
  next
    case 3
    then have "st' = st2" using assms(2) T p2 by (simp add: forward_def Let_def st2_def[symmetric])
    then show ?thesis using p2 by simp
  qed
qed

text \<open>
  Claim C3: a parameter left out of the EM-update set keeps its initial value. In
  "filter" mode \<^verbatim>\<open>_update_transition_matrix_approximately\<close> never reads the set, and
  \<open>F\<close> moves although the set is empty.
\<close>

theorem filter_mode_updates_F_outside_em_vars:
  "em_vars (new (scalar_model 1 1 [[1], [2], [3]] ''filter'' 1 [])) = []
   \<and> raised (run (scalar_model 1 1 [[1], [2], [3]] ''filter'' 1 [])) = None
   \<and> F (new (scalar_model 1 1 [[1], [2], [3]] ''filter'' 1 [])) = [[1]]
   \<and> F (final (scalar_model 1 1 [[1], [2], [3]] ''filter'' 1 [])) = [[101 / 100]]"
  by code_simp

text \<open>In "filter" mode no step of the run writes the pairwise covariances.\<close>

lemma filter_mode_V_pair:
  assumes "mode st = ''filter''" and "forward pinv st = Inr st'"
  shows "V_pair st' = replicate (length (y st)) (mzeros (n_dim_sys st) (n_dim_sys st))"
proof -
  have "V_pair st' = V_pair (filter_update pinv (initial_setting (allocate st)) 0)"
    using filter_step_V_pair forward_filter_mode(2)[OF assms] by (rule foldE_keeps)
  then show ?thesis
    by (simp add: filter_update_def initial_setting_def allocate_def Let_def)
qed

text \<open>
  Claim C5: the look-ahead of "filter" mode records the filtered pairwise covariances
  and the approximate M-step computes its candidate from them. The look-ahead calls
  \<^verbatim>\<open>_predict_update\<close> and \<^verbatim>\<open>_filter_update\<close>, which leave \<open>V_pair\<close> alone: after a run
  whose look-ahead has moved \<open>F\<close>, \<open>V_pair\<close> is still zero, where the variants
  \<^verbatim>\<open>_predict_update_pair\<close> and \<^verbatim>\<open>_filter_update_pair\<close> record \<open>1/5\<close> at time 1.
\<close>

theorem lookahead_records_no_pairwise_covariance:
  "raised (run (scalar_model 1 1 [[1], [2], [3]] ''filter'' 1 [''F''])) = None
   \<and> F (final (scalar_model 1 1 [[1], [2], [3]] ''filter'' 1 [''F''])) = [[101 / 100]]
   \<and> V_pair (final (scalar_model 1 1 [[1], [2], [3]] ''filter'' 1 [''F''])) = [[[0]], [[0]], [[0]]]
   \<and> V_pair (filter_update_pair pinv_scalar (predict_update_pair
         (filter_update pinv_scalar (started (scalar_model 1 1 [[1], [2], [3]] ''filter'' 1 [''F''])) 0) 1 None) 1) ! 1
       = [[1 / 5]]"
  by code_simp

text \<open>No accessor raises ValueError, whatever the coordinate index.\<close>

lemma select_not_ValueError: "select X n dm \<noteq> Inl ValueError"
  by (simp add: select_def column_def Let_def split: option.splits sum.splits)

text \<open>
  Claim C8: a coordinate index equal to the state dimensionality raises ValueError. The
  guard of the accessors is \<^verbatim>\<open>dim <= shape[1]\<close>: the index 1 of a one-dimensional state
  passes it and numpy raises IndexError; the index 2 reaches the \<^verbatim>\<open>raise\<close>, whose message
  fails to build with a TypeError.
\<close>

theorem coordinate_equal_to_dimension_raises_IndexError:
  "n_dim_sys (new (scalar_model 1 1 [[1]] ''filter'' 1 [''F''])) = 1
   \<and> raised (get_predicted_value pinv_scalar (new (scalar_model 1 1 [[1]] ''filter'' 1 [''F''])) (Some 1))
       = Some IndexError
   \<and> raised (get_filtered_value pinv_scalar (new (scalar_model 1 1 [[1]] ''filter'' 1 [''F''])) (Some 1))
       = Some IndexError
   \<and> raised (get_smoothed_value pinv_scalar (final (scalar_model 1 1 [[1]] ''filter'' 1 [''F''])) (Some 1))
       = Some IndexError
   \<and> raised (get_filtered_value pinv_scalar (new (scalar_model 1 1 [[1]] ''filter'' 1 [''F''])) (Some 2))
       = Some TypeError"
  by code_simp

text \<open>
  Claim C9: every accessor runs the estimation when the trajectories are missing. On a
  new object \<^verbatim>\<open>get_smoothed_value\<close> calls the absent method \<^verbatim>\<open>smooth\<close> and raises
  AttributeError, where \<^verbatim>\<open>get_predicted_value\<close> and \<^verbatim>\<open>get_filtered_value\<close> run
  \<^verbatim>\<open>forward\<close> and return.
\<close>

theorem get_smoothed_value_before_run_raises:
  "raised (get_smoothed_value pinv_scalar (new (scalar_model 1 1 [[1]] ''filter'' 1 [''F''])) None)
     = Some AttributeError
   \<and> raised (get_filtered_value pinv_scalar (new (scalar_model 1 1 [[1]] ''filter'' 1 [''F''])) None) = None
   \<and> raised (get_predicted_value pinv_scalar (new (scalar_model 1 1 [[1]] ''filter'' 1 [''F''])) None) = None"
  by code_simp

end
